theory Spec2Isabelle
  imports Main
begin

section \<open>Data model\<close>

text \<open>
  The sole entity of the application is the food record (\<^verbatim>\<open>interface FoodData\<close> in
  \<^verbatim>\<open>food-form.tsx\<close> and in the list screen). The fields \<^verbatim>\<open>id\<close> and \<^verbatim>\<open>imageUri\<close> are
  optional in the form's interface, every other field is a string. The field \<^verbatim>\<open>id\<close> is
  called \<open>food_id\<close> here, since \<open>id\<close> is the identity function of HOL. The category labels are
  strings at run time (the list screen declares \<^verbatim>\<open>category: string\<close>).
\<close>

record FoodData =
  food_id :: "string option"
  foodName :: string
  category :: string
  calories :: string
  weight :: string
  protein :: string
  carbs :: string
  fat :: string
  fiber :: string
  imageUri :: "string option"

text \<open>
  The state variables of the form component (\<^verbatim>\<open>useState\<close> in \<^verbatim>\<open>FoodForm\<close>), suffixed with
  \<open>_st\<close> to keep them apart from the record's fields.
\<close>

record form_state =
  foodName_st :: string
  calories_st :: string
  weight_st :: string
  protein_st :: string
  carbs_st :: string
  fat_st :: string
  fiber_st :: string
  imageUri_st :: string
  category_st :: string

section \<open>The language's built-in functions\<close>

text \<open>
  The code calls built-in functions of the language whose definitions are not part of the
  repository. They are parameters of the model:
  \<^item> \<open>JSON_parse\<close> is \<^verbatim>\<open>JSON.parse\<close>, typed as the code types its result
    (\<^verbatim>\<open>Promise<FoodData[]>\<close>, so a text that holds anything but an array of records is
    outside the model); \<open>None\<close> stands for the exception it throws on a malformed text;
  \<^item> \<open>JSON_stringify\<close> is \<^verbatim>\<open>JSON.stringify(v)\<close> and \<open>JSON_stringify_2\<close> is
    \<^verbatim>\<open>JSON.stringify(v, null, 2)\<close>;
  \<^item> \<open>isWhiteSpace\<close> is the set of characters that \<^verbatim>\<open>String.prototype.trim\<close> removes;
  \<^item> \<open>isNaN_Number\<close> is \<^verbatim>\<open>isNaN(Number(s))\<close> on a string \<open>s\<close>.
\<close>

record builtins =
  JSON_parse :: "string \<Rightarrow> FoodData list option"
  JSON_stringify :: "FoodData list \<Rightarrow> string"
  JSON_stringify_2 :: "FoodData list \<Rightarrow> string"
  isWhiteSpace :: "char \<Rightarrow> bool"
  isNaN_Number :: "string \<Rightarrow> bool"

definition trim :: "builtins \<Rightarrow> string \<Rightarrow> string" where
  "trim B s = rev (dropWhile (isWhiteSpace B) (rev (dropWhile (isWhiteSpace B) s)))"

text \<open>\<^verbatim>\<open>s || d\<close> on strings: the empty string is the only falsy string.\<close>

definition or_else :: "string \<Rightarrow> string \<Rightarrow> string" where
  "or_else s d = (if s = [] then d else s)"

text \<open>
  \<^verbatim>\<open>Number.prototype.toString\<close> on a non-negative integer: its decimal digits
  (\<open>digit_char\<close> is applied to numbers below ten only).
\<close>

definition digit_char :: "nat \<Rightarrow> char" where
  "digit_char d = ''0123456789'' ! d"

function toString :: "nat \<Rightarrow> string" where
  "toString n = (if n < 10 then [digit_char n] else toString (n div 10) @ [digit_char (n mod 10)])"
  by pat_completeness auto
termination
  by (relation "measure (\<lambda>n. n)") auto

declare toString.simps [simp del]

text \<open>\<^verbatim>\<open>Array.prototype.findIndex\<close>; \<open>None\<close> is the result \<^verbatim>\<open>-1\<close>.\<close>

fun findIndex :: "('a \<Rightarrow> bool) \<Rightarrow> 'a list \<Rightarrow> nat option" where
  "findIndex P [] = None"
| "findIndex P (x # xs) =
     (if P x then Some 0 else (case findIndex P xs of None \<Rightarrow> None | Some k \<Rightarrow> Some (Suc k)))"

section \<open>The device: file system and clock\<close>

text \<open>
  The file system API (\<^verbatim>\<open>expo-file-system\<close>) and the clock are the environment of the code.
  A world holds the directories and the files (a map from paths to contents), and two
  oracles: \<open>fault_at w n\<close> says whether the \<open>n\<close>-th call of the file system API fails
  (\<open>fs_calls\<close> counts the calls made so far), and \<open>clock w n\<close> is the value the \<open>n\<close>-th call of
  \<^verbatim>\<open>Date.now()\<close> returns (\<open>now_calls\<close> counts them). Every pattern of failing calls and
  every sequence of clock readings is a world; why a call fails (a missing parent
  directory, a full disk, a permission) is left to the oracle. \<open>documentDirectory\<close> is
  \<^verbatim>\<open>FileSystem.documentDirectory\<close>, a constant of the device.
\<close>

record world =
  documentDirectory :: string
  dirs :: "string set"
  files :: "string \<rightharpoonup> string"
  fault_at :: "nat \<Rightarrow> bool"
  fs_calls :: nat
  clock :: "nat \<Rightarrow> nat"
  now_calls :: nat

datatype js_error = IOError | SyntaxError

text \<open>
  An asynchronous computation takes the world and gives back a value or the exception it
  throws, and the world it leaves. \<open>await\<close> is sequencing, \<open>try_catch\<close> is
  \<^verbatim>\<open>try { ... } catch (error) { ... }\<close>.
\<close>

type_synonym 'a io = "world \<Rightarrow> (js_error + 'a) \<times> world"

definition return :: "'a \<Rightarrow> 'a io" where
  "return x w = (Inr x, w)"

definition throw :: "js_error \<Rightarrow> 'a io" where
  "throw e w = (Inl e, w)"

definition await :: "'a io \<Rightarrow> ('a \<Rightarrow> 'b io) \<Rightarrow> 'b io" where
  "await m f w = (case m w of (Inl e, w') \<Rightarrow> (Inl e, w') | (Inr x, w') \<Rightarrow> f x w')"

definition try_catch :: "'a io \<Rightarrow> (js_error \<Rightarrow> 'a io) \<Rightarrow> 'a io" where
  "try_catch m h w = (case m w of (Inl e, w') \<Rightarrow> h e w' | (Inr x, w') \<Rightarrow> (Inr x, w'))"

definition Date_now :: "nat io" where
  "Date_now w = (Inr (clock w (now_calls w)), w\<lparr>now_calls := Suc (now_calls w)\<rparr>)"

text \<open>
  Every call of the file system API uses up one position of the fault oracle; a call that
  does not fail has its usual effect. Reading or copying a path that holds no file fails.
\<close>

definition getInfoAsync :: "string \<Rightarrow> bool io" where
  "getInfoAsync p w =
     (let w' = w\<lparr>fs_calls := Suc (fs_calls w)\<rparr> in
      if fault_at w (fs_calls w) then (Inl IOError, w')
      else (Inr (p \<in> dirs w \<or> files w p \<noteq> None), w'))"

definition makeDirectoryAsync :: "string \<Rightarrow> unit io" where
  "makeDirectoryAsync p w =
     (let w' = w\<lparr>fs_calls := Suc (fs_calls w)\<rparr> in
      if fault_at w (fs_calls w) then (Inl IOError, w')
      else (Inr (), w'\<lparr>dirs := insert p (dirs w)\<rparr>))"

definition writeAsStringAsync :: "string \<Rightarrow> string \<Rightarrow> unit io" where
  "writeAsStringAsync p s w =
     (let w' = w\<lparr>fs_calls := Suc (fs_calls w)\<rparr> in
      if fault_at w (fs_calls w) then (Inl IOError, w')
      else (Inr (), w'\<lparr>files := (files w)(p \<mapsto> s)\<rparr>))"

definition readAsStringAsync :: "string \<Rightarrow> string io" where
  "readAsStringAsync p w =
     (let w' = w\<lparr>fs_calls := Suc (fs_calls w)\<rparr> in
      if fault_at w (fs_calls w) then (Inl IOError, w')
      else (case files w p of None \<Rightarrow> (Inl IOError, w') | Some c \<Rightarrow> (Inr c, w')))"

definition copyAsync :: "string \<Rightarrow> string \<Rightarrow> unit io" where
  "copyAsync src dst w =
     (let w' = w\<lparr>fs_calls := Suc (fs_calls w)\<rparr> in
      if fault_at w (fs_calls w) then (Inl IOError, w')
      else (case files w src of
              None \<Rightarrow> (Inl IOError, w')
            | Some c \<Rightarrow> (Inr (), w'\<lparr>files := (files w)(dst \<mapsto> c)\<rparr>)))"

text \<open>\<^verbatim>\<open>JSON.parse\<close> as a computation: a malformed text throws.\<close>

definition parse_json :: "builtins \<Rightarrow> string \<Rightarrow> FoodData list io" where
  "parse_json B content =
     (case JSON_parse B content of None \<Rightarrow> throw SyntaxError | Some foods \<Rightarrow> return foods)"

section \<open>Record store (food-form.tsx)\<close>

definition DATA_DIRECTORY :: "world \<Rightarrow> string" where
  "DATA_DIRECTORY w = documentDirectory w @ ''foods/''"

definition FOODS_FILE_PATH :: "world \<Rightarrow> string" where
  "FOODS_FILE_PATH w = DATA_DIRECTORY w @ ''foods.json''"

definition ensureDirectoryExists :: "unit io" where
  "ensureDirectoryExists w =
     await (getInfoAsync (DATA_DIRECTORY w)) (\<lambda>exists.
       if \<not> exists then makeDirectoryAsync (DATA_DIRECTORY w) else return ()) w"

text \<open>
  \<^verbatim>\<open>loadFoods\<close> of the form: the whole body is inside \<^verbatim>\<open>try\<close>, and the \<^verbatim>\<open>catch\<close> logs the
  error and returns the empty array.
\<close>

definition loadFoods :: "builtins \<Rightarrow> FoodData list io" where
  "loadFoods B w =
     try_catch
       (await ensureDirectoryExists (\<lambda>u.
        await (getInfoAsync (FOODS_FILE_PATH w)) (\<lambda>exists.
          if \<not> exists then
            await (writeAsStringAsync (FOODS_FILE_PATH w) (JSON_stringify B [])) (\<lambda>u.
            return [])
          else
            await (readAsStringAsync (FOODS_FILE_PATH w)) (\<lambda>content.
            parse_json B content))))
       (\<lambda>error. return []) w"

text \<open>\<^verbatim>\<open>saveFoods\<close>: the \<^verbatim>\<open>catch\<close> logs the error and throws it again.\<close>

definition saveFoods :: "builtins \<Rightarrow> FoodData list \<Rightarrow> unit io" where
  "saveFoods B foods w =
     try_catch
       (await ensureDirectoryExists (\<lambda>u.
        writeAsStringAsync (FOODS_FILE_PATH w) (JSON_stringify_2 B foods)))
       (\<lambda>error. throw error) w"

section \<open>Form controller (food-form.tsx)\<close>

text \<open>
  The messages shown to the user, one constructor for each message of the code: the
  name is missing, the weight is not valid, the food was saved, saving failed, the food
  was deleted, deleting failed. Logging to the console is left out.
\<close>

datatype alert =
  NameRequired | InvalidWeight | SavedOk | SaveFailed | DeletedOk | DeleteFailed

text \<open>\<^verbatim>\<open>validateForm\<close>: \<open>None\<close> is the result \<^verbatim>\<open>true\<close>, \<open>Some a\<close> is \<^verbatim>\<open>false\<close> after the alert \<open>a\<close>.\<close>

definition validateForm :: "builtins \<Rightarrow> form_state \<Rightarrow> alert option" where
  "validateForm B st =
     (if trim B (foodName_st st) = [] then Some NameRequired
      else if weight_st st = [] \<or> isNaN_Number B (weight_st st) then Some InvalidWeight
      else None)"

text \<open>
  \<^verbatim>\<open>initialData?.id\<close> as a condition: the id of the record passed by the navigation, when
  there is one and it is a non-empty string.
\<close>

definition initial_id :: "FoodData option \<Rightarrow> string option" where
  "initial_id initialData =
     (case initialData of
        None \<Rightarrow> None
      | Some d \<Rightarrow> (case food_id d of None \<Rightarrow> None | Some i \<Rightarrow> if i = [] then None else Some i))"

text \<open>The object literal \<^verbatim>\<open>newFood\<close> of \<^verbatim>\<open>handleSubmit\<close>, for the id \<open>i\<close>.\<close>

definition newFood :: "builtins \<Rightarrow> string \<Rightarrow> form_state \<Rightarrow> FoodData" where
  "newFood B i st =
     \<lparr> food_id = Some i,
       foodName = trim B (foodName_st st),
       category = category_st st,
       calories = or_else (calories_st st) ''0'',
       weight = or_else (weight_st st) ''0'',
       protein = or_else (protein_st st) ''0'',
       carbs = or_else (carbs_st st) ''0'',
       fat = or_else (fat_st st) ''0'',
       fiber = or_else (fiber_st st) ''0'',
       imageUri = Some (imageUri_st st) \<rparr>"

text \<open>\<^verbatim>\<open>initialData?.id || Date.now().toString()\<close>: the clock is read only without an id.\<close>

definition submit_id :: "FoodData option \<Rightarrow> string io" where
  "submit_id initialData =
     (case initial_id initialData of
        Some i \<Rightarrow> return i
      | None \<Rightarrow> await Date_now (\<lambda>t. return (toString t)))"

text \<open>
  The block \<^verbatim>\<open>if (imageUri) { ... }\<close>: the picked image is copied beside the document and
  the record refers to the copy; \<open>i\<close> is \<^verbatim>\<open>newFood.id\<close>.
\<close>

definition copyImage :: "string \<Rightarrow> form_state \<Rightarrow> FoodData \<Rightarrow> FoodData io" where
  "copyImage i st food w =
     (if imageUri_st st \<noteq> [] then
        await Date_now (\<lambda>t.
          let fileName = i @ ''_'' @ toString t @ ''.jpg'';
              newImagePath = DATA_DIRECTORY w @ fileName
          in await (copyAsync (imageUri_st st) newImagePath) (\<lambda>u.
             return (food\<lparr>imageUri := Some newImagePath\<rparr>)))
      else return food) w"

text \<open>
  The update of the loaded array: with an id, the element at the first index that has
  the id is replaced (nothing happens when \<^verbatim>\<open>findIndex\<close> gives \<^verbatim>\<open>-1\<close>); without, the record
  is pushed.
\<close>

definition upsert :: "FoodData option \<Rightarrow> FoodData \<Rightarrow> FoodData list \<Rightarrow> FoodData list" where
  "upsert initialData food foods =
     (case initial_id initialData of
        Some i \<Rightarrow>
          (case findIndex (\<lambda>f. food_id f = Some i) foods of
             None \<Rightarrow> foods
           | Some index \<Rightarrow> foods[index := food])
      | None \<Rightarrow> foods @ [food])"

text \<open>The \<^verbatim>\<open>try\<close> block of \<^verbatim>\<open>handleSubmit\<close>, up to the call of \<^verbatim>\<open>saveFoods\<close>.\<close>

definition handleSubmit_try :: "builtins \<Rightarrow> FoodData option \<Rightarrow> form_state \<Rightarrow> unit io" where
  "handleSubmit_try B initialData st =
     await (submit_id initialData) (\<lambda>i.
     await (copyImage i st (newFood B i st)) (\<lambda>food.
     await (loadFoods B) (\<lambda>foods.
     saveFoods B (upsert initialData food foods))))"

text \<open>
  \<^verbatim>\<open>handleSubmit\<close>: an invalid form returns at once; otherwise the success alert follows
  the \<^verbatim>\<open>try\<close> block and the failure alert is the \<^verbatim>\<open>catch\<close>. The busy flag and the
  navigation belong to the presentation layer and are left out.
\<close>

definition handleSubmit ::
  "builtins \<Rightarrow> FoodData option \<Rightarrow> form_state \<Rightarrow> world \<Rightarrow> alert \<times> world" where
  "handleSubmit B initialData st w =
     (case validateForm B st of
        Some a \<Rightarrow> (a, w)
      | None \<Rightarrow>
          (case handleSubmit_try B initialData st w of
             (Inl e, w') \<Rightarrow> (SaveFailed, w')
           | (Inr u, w') \<Rightarrow> (SavedOk, w')))"

text \<open>
  \<^verbatim>\<open>handleDelete\<close>: nothing happens without an id; otherwise the user is asked, and
  \<open>confirmed\<close> says whether the destructive button was pressed.
\<close>

definition handleDelete ::
  "builtins \<Rightarrow> FoodData option \<Rightarrow> bool \<Rightarrow> world \<Rightarrow> alert option \<times> world" where
  "handleDelete B initialData confirmed w =
     (case initial_id initialData of
        None \<Rightarrow> (None, w)
      | Some i \<Rightarrow>
          if \<not> confirmed then (None, w)
          else
            (case await (loadFoods B) (\<lambda>foods.
                    saveFoods B (filter (\<lambda>food. food_id food \<noteq> Some i) foods)) w of
               (Inl e, w') \<Rightarrow> (Some DeleteFailed, w')
             | (Inr u, w') \<Rightarrow> (Some DeletedOk, w')))"

section \<open>List and search screen\<close>

text \<open>
  The list screen has its own \<^verbatim>\<open>loadFoods\<close>, called \<open>loadFoods_list\<close> here: it does not
  touch the directory and returns the empty array when the document is missing.
\<close>

definition loadFoods_list :: "builtins \<Rightarrow> FoodData list io" where
  "loadFoods_list B w =
     try_catch
       (await (getInfoAsync (FOODS_FILE_PATH w)) (\<lambda>exists.
          if \<not> exists then return []
          else
            await (readAsStringAsync (FOODS_FILE_PATH w)) (\<lambda>content.
            parse_json B content)))
       (\<lambda>error. return []) w"

text \<open>
  \<^verbatim>\<open>String.prototype.toLowerCase\<close> is modelled as a mapping \<open>lc\<close> of the single characters
  (a parameter), and \<^verbatim>\<open>String.prototype.includes\<close> (\<open>includes_str\<close> here) as the
  search for a contiguous occurrence.
\<close>

definition toLowerCase :: "(char \<Rightarrow> char) \<Rightarrow> string \<Rightarrow> string" where
  "toLowerCase lc s = map lc s"

fun startsWith :: "string \<Rightarrow> string \<Rightarrow> bool" where
  "startsWith s [] = True"
| "startsWith [] (y # ys) = False"
| "startsWith (x # xs) (y # ys) = (x = y \<and> startsWith xs ys)"

fun includes_str :: "string \<Rightarrow> string \<Rightarrow> bool" where
  "includes_str [] t = (t = [])"
| "includes_str (x # xs) t = (startsWith (x # xs) t \<or> includes_str xs t)"

definition filteredFoods :: "(char \<Rightarrow> char) \<Rightarrow> FoodData list \<Rightarrow> string \<Rightarrow> FoodData list" where
  "filteredFoods lc foods searchQuery =
     filter (\<lambda>food. includes_str (toLowerCase lc (foodName food)) (toLowerCase lc searchQuery)) foods"

text \<open>
  \<^verbatim>\<open>deleteFood\<close> of the list screen. The second component of the result is the state
  variable \<^verbatim>\<open>foods\<close> of the screen (\<open>shown\<close> before the call), set only after the write.
\<close>

definition deleteFood ::
  "builtins \<Rightarrow> string \<Rightarrow> FoodData list \<Rightarrow> world \<Rightarrow> alert option \<times> FoodData list \<times> world" where
  "deleteFood B i shown w =
     (case await (loadFoods_list B) (\<lambda>currentFoods.
             let updatedFoods = filter (\<lambda>food. food_id food \<noteq> Some i) currentFoods
             in await (writeAsStringAsync (FOODS_FILE_PATH w) (JSON_stringify B updatedFoods)) (\<lambda>u.
                return updatedFoods)) w of
        (Inl e, w') \<Rightarrow> (Some DeleteFailed, shown, w')
      | (Inr updatedFoods, w') \<Rightarrow> (None, updatedFoods, w'))"

section \<open>Notions of the specification\<close>

text \<open>
  No call of the file system API fails from now on: the normal operation that the
  properties of creating, editing and deleting are about.
\<close>

definition fault_free :: "world \<Rightarrow> bool" where
  "fault_free w = (\<forall>n. fs_calls w \<le> n \<longrightarrow> \<not> fault_at w n)"

text \<open>
  One of the calls of the file system API made between the world \<open>w\<close> and the later world
  \<open>w'\<close> has failed.
\<close>

definition fault_during :: "world \<Rightarrow> world \<Rightarrow> bool" where
  "fault_during w w' = (\<exists>n. fs_calls w \<le> n \<and> n < fs_calls w' \<and> fault_at w n)"

text \<open>
  The collection that the store holds: the document parses to it, or there is no document
  (nothing at its path) and the collection is empty.
\<close>

definition stored :: "builtins \<Rightarrow> world \<Rightarrow> FoodData list \<Rightarrow> bool" where
  "stored B w foods =
     (case files w (FOODS_FILE_PATH w) of
        Some c \<Rightarrow> JSON_parse B c = Some foods
      | None \<Rightarrow> FOODS_FILE_PATH w \<notin> dirs w \<and> foods = [])"

text \<open>The later world \<open>w'\<close> is a world of the same device as \<open>w\<close>.\<close>

definition same_device :: "world \<Rightarrow> world \<Rightarrow> bool" where
  "same_device w w' =
     (documentDirectory w' = documentDirectory w \<and> fault_at w' = fault_at w \<and>
      clock w' = clock w \<and> fs_calls w \<le> fs_calls w')"

text \<open>The id that \<^verbatim>\<open>handleSubmit\<close> gives the record when it starts in the world \<open>w\<close>.\<close>

definition minted_id :: "FoodData option \<Rightarrow> world \<Rightarrow> string" where
  "minted_id initialData w =
     (case initial_id initialData of Some i \<Rightarrow> i | None \<Rightarrow> toString (clock w (now_calls w)))"


section \<open>JSON texts\<close>

text \<open>
  A model of \<^verbatim>\<open>JSON.stringify\<close> and \<^verbatim>\<open>JSON.parse\<close> on the documents of the application:
  arrays of food records whose fields are strings. A \<open>char\<close> stands for a code unit below
  \<open>0x100\<close>. \<open>json_text\<close> is \<^verbatim>\<open>JSON.stringify(v)\<close> and \<open>json_text_2\<close> is
  \<^verbatim>\<open>JSON.stringify(v, null, 2)\<close>; a field that is undefined is left out.
\<close>

text \<open>
  The escapes of \<^verbatim>\<open>JSON.stringify\<close> in a string: the quote and the backslash, the five
  control characters that have a short escape, and the other characters below \<open>0x20\<close> in
  the form \<^verbatim>\<open>\u00XX\<close>. Every other character is written as it is.
\<close>

definition json_escapes :: "(char \<times> string) list" where
  "json_escapes =
     [(CHR 0x22, [CHR 0x5C, CHR 0x22]), (CHR 0x5C, [CHR 0x5C, CHR 0x5C]),
      (CHR 0x00, CHR 0x5C # ''u0000''), (CHR 0x01, CHR 0x5C # ''u0001''),
      (CHR 0x02, CHR 0x5C # ''u0002''), (CHR 0x03, CHR 0x5C # ''u0003''),
      (CHR 0x04, CHR 0x5C # ''u0004''), (CHR 0x05, CHR 0x5C # ''u0005''),
      (CHR 0x06, CHR 0x5C # ''u0006''), (CHR 0x07, CHR 0x5C # ''u0007''),
      (CHR 0x08, [CHR 0x5C, CHR ''b'']), (CHR 0x09, [CHR 0x5C, CHR ''t'']),
      (CHR 0x0A, [CHR 0x5C, CHR ''n'']), (CHR 0x0B, CHR 0x5C # ''u000b''),
      (CHR 0x0C, [CHR 0x5C, CHR ''f'']), (CHR 0x0D, [CHR 0x5C, CHR ''r'']),
      (CHR 0x0E, CHR 0x5C # ''u000e''), (CHR 0x0F, CHR 0x5C # ''u000f''),
      (CHR 0x10, CHR 0x5C # ''u0010''), (CHR 0x11, CHR 0x5C # ''u0011''),
      (CHR 0x12, CHR 0x5C # ''u0012''), (CHR 0x13, CHR 0x5C # ''u0013''),
      (CHR 0x14, CHR 0x5C # ''u0014''), (CHR 0x15, CHR 0x5C # ''u0015''),
      (CHR 0x16, CHR 0x5C # ''u0016''), (CHR 0x17, CHR 0x5C # ''u0017''),
      (CHR 0x18, CHR 0x5C # ''u0018''), (CHR 0x19, CHR 0x5C # ''u0019''),
      (CHR 0x1A, CHR 0x5C # ''u001a''), (CHR 0x1B, CHR 0x5C # ''u001b''),
      (CHR 0x1C, CHR 0x5C # ''u001c''), (CHR 0x1D, CHR 0x5C # ''u001d''),
      (CHR 0x1E, CHR 0x5C # ''u001e''), (CHR 0x1F, CHR 0x5C # ''u001f'')]"

definition json_escape :: "char \<Rightarrow> string" where
  "json_escape c = (case map_of json_escapes c of Some e \<Rightarrow> e | None \<Rightarrow> [c])"

definition json_quote :: "string \<Rightarrow> string" where
  "json_quote s = [CHR 0x22] @ concat (map json_escape s) @ [CHR 0x22]"

definition json_members :: "FoodData \<Rightarrow> (string \<times> string) list" where
  "json_members f =
     (case food_id f of None \<Rightarrow> [] | Some i \<Rightarrow> [(''id'', i)]) @
     [(''foodName'', foodName f), (''category'', category f), (''calories'', calories f),
      (''weight'', weight f), (''protein'', protein f), (''carbs'', carbs f),
      (''fat'', fat f), (''fiber'', fiber f)] @
     (case imageUri f of None \<Rightarrow> [] | Some u \<Rightarrow> [(''imageUri'', u)])"

fun join :: "string \<Rightarrow> string list \<Rightarrow> string" where
  "join sep [] = []"
| "join sep [x] = x"
| "join sep (x # y # ys) = x @ sep @ join sep (y # ys)"

definition member_text :: "string \<times> string \<Rightarrow> string" where
  "member_text m = json_quote (fst m) @ '':'' @ json_quote (snd m)"

definition object_text :: "FoodData \<Rightarrow> string" where
  "object_text f = ''{'' @ join '','' (map member_text (json_members f)) @ ''}''"

definition json_text :: "FoodData list \<Rightarrow> string" where
  "json_text foods = ''['' @ join '','' (map object_text foods) @ '']''"

definition member_text_2 :: "string \<times> string \<Rightarrow> string" where
  "member_text_2 m = ''    '' @ json_quote (fst m) @ '': '' @ json_quote (snd m)"

definition object_text_2 :: "FoodData \<Rightarrow> string" where
  "object_text_2 f =
     ''  {'' @ [CHR 0x0A] @
     join ('','' @ [CHR 0x0A]) (map member_text_2 (json_members f)) @
     [CHR 0x0A] @ ''  }''"

definition json_text_2 :: "FoodData list \<Rightarrow> string" where
  "json_text_2 foods =
     (if foods = [] then ''[]''
      else ''['' @ [CHR 0x0A] @
        join ('','' @ [CHR 0x0A]) (map object_text_2 foods) @
        [CHR 0x0A] @ '']'')"

text \<open>
  Reading: the model of \<^verbatim>\<open>JSON.parse\<close>. White space is skipped between the tokens. Inside
  a string a raw control character is refused and every escape of JSON is read; an escape
  \<^verbatim>\<open>\uXXXX\<close> beyond \<open>0x00FF\<close> has no \<open>char\<close> and is refused.
\<close>

definition json_whitespace :: "char \<Rightarrow> bool" where
  "json_whitespace c = (c \<in> set [CHR '' '', CHR 0x09, CHR 0x0A, CHR 0x0D])"

definition skip_ws :: "string \<Rightarrow> string" where
  "skip_ws s = dropWhile json_whitespace s"

definition control_chars :: "char list" where
  "control_chars = map char_of [0..<(32::nat)]"

definition hex_value :: "char \<Rightarrow> nat option" where
  "hex_value c =
     map_of (zip ''0123456789abcdefABCDEF''
       [0, 1, 2, 3, 4, 5, 6, 7, 8, 9, 10, 11, 12, 13, 14, 15, 10, 11, 12, 13, 14, 15]) c"

definition unicode_escape :: "char \<Rightarrow> char \<Rightarrow> char \<Rightarrow> char \<Rightarrow> char option" where
  "unicode_escape h1 h2 h3 h4 =
     (case (hex_value h1, hex_value h2, hex_value h3, hex_value h4) of
        (Some a, Some b, Some c, Some d) \<Rightarrow>
          if a = 0 \<and> b = 0 then Some (char_of (16 * c + d)) else None
      | _ \<Rightarrow> None)"

definition short_escape :: "char \<Rightarrow> char option" where
  "short_escape e =
     map_of [(CHR 0x22, CHR 0x22), (CHR 0x5C, CHR 0x5C), (CHR ''/'', CHR ''/''),
             (CHR ''b'', CHR 0x08), (CHR ''f'', CHR 0x0C), (CHR ''n'', CHR 0x0A),
             (CHR ''r'', CHR 0x0D), (CHR ''t'', CHR 0x09)] e"

fun parse_chars :: "string \<Rightarrow> string \<Rightarrow> (string \<times> string) option" where
  "parse_chars acc [] = None"
| "parse_chars acc (c # cs) =
     (if c = CHR 0x22 then Some (rev acc, cs)
      else if c = CHR 0x5C then
        (case cs of
           [] \<Rightarrow> None
         | e # rest \<Rightarrow>
             if e = CHR ''u'' then
               (case rest of
                  h1 # h2 # h3 # h4 # rest' \<Rightarrow>
                    (case unicode_escape h1 h2 h3 h4 of
                       None \<Rightarrow> None
                     | Some ch \<Rightarrow> parse_chars (ch # acc) rest')
                | _ \<Rightarrow> None)
             else
               (case short_escape e of
                  None \<Rightarrow> None
                | Some ch \<Rightarrow> parse_chars (ch # acc) rest))
      else if c \<in> set control_chars then None
      else parse_chars (c # acc) cs)"


definition parse_string :: "string \<Rightarrow> (string \<times> string) option" where
  "parse_string s =
     (case s of [] \<Rightarrow> None | c # cs \<Rightarrow> if c = CHR 0x22 then parse_chars [] cs else None)"

definition parse_member :: "string \<Rightarrow> ((string \<times> string) \<times> string) option" where
  "parse_member s =
     (case parse_string s of
        None \<Rightarrow> None
      | Some (k, r1) \<Rightarrow>
          (case skip_ws r1 of
             [] \<Rightarrow> None
           | c # r2 \<Rightarrow>
               if c = CHR '':'' then
                 (case parse_string (skip_ws r2) of
                    None \<Rightarrow> None
                  | Some (v, r3) \<Rightarrow> Some ((k, v), r3))
               else None))"

text \<open>
  The loops over the members of an object and over the elements of an array run on fuel:
  the number of characters left, and every round uses up at least one character.
\<close>

fun parse_members ::
  "nat \<Rightarrow> (string \<times> string) list \<Rightarrow> string \<Rightarrow> ((string \<times> string) list \<times> string) option" where
  "parse_members 0 acc s = None"
| "parse_members (Suc n) acc s =
     (case parse_member (skip_ws s) of
        None \<Rightarrow> None
      | Some (m, r) \<Rightarrow>
          (case skip_ws r of
             [] \<Rightarrow> None
           | c # r' \<Rightarrow>
               if c = CHR '','' then parse_members n (m # acc) r'
               else if c = CHR ''}'' then Some (rev (m # acc), r')
               else None))"

text \<open>
  The record of an object: the members are the fields of \<^verbatim>\<open>FoodData\<close> in the order of the
  object literal of \<^verbatim>\<open>handleSubmit\<close>, \<^verbatim>\<open>id\<close> and \<^verbatim>\<open>imageUri\<close> being optional. An object
  with other members, with a member twice, or in another order, is outside the typed model
  and is refused.
\<close>

definition optional_member ::
  "string \<Rightarrow> (string \<times> string) list \<Rightarrow> string option \<times> (string \<times> string) list" where
  "optional_member k ms =
     (case ms of
        [] \<Rightarrow> (None, [])
      | m # rest \<Rightarrow> if fst m = k then (Some (snd m), rest) else (None, ms))"

definition required_member ::
  "string \<Rightarrow> (string \<times> string) list \<Rightarrow> (string \<times> (string \<times> string) list) option" where
  "required_member k ms =
     (case ms of
        [] \<Rightarrow> None
      | m # rest \<Rightarrow> if fst m = k then Some (snd m, rest) else None)"

fun required_members ::
  "string list \<Rightarrow> (string \<times> string) list \<Rightarrow> (string list \<times> (string \<times> string) list) option" where
  "required_members [] ms = Some ([], ms)"
| "required_members (k # ks) ms =
     (case required_member k ms of
        None \<Rightarrow> None
      | Some (v, rest) \<Rightarrow>
          (case required_members ks rest of
             None \<Rightarrow> None
           | Some (vs, rest') \<Rightarrow> Some (v # vs, rest')))"

definition food_of_members :: "(string \<times> string) list \<Rightarrow> FoodData option" where
  "food_of_members ms =
     (case optional_member ''id'' ms of
        (i, m1) \<Rightarrow>
          (case required_members
                  [''foodName'', ''category'', ''calories'', ''weight'', ''protein'', ''carbs'',
                   ''fat'', ''fiber''] m1 of
             Some ([n, cat, cal, we, pr, ca, fa, fi], m2) \<Rightarrow>
               (case optional_member ''imageUri'' m2 of
                  (u, m3) \<Rightarrow>
                    if m3 = [] then
                      Some \<lparr> food_id = i, foodName = n, category = cat, calories = cal,
                             weight = we, protein = pr, carbs = ca, fat = fa, fiber = fi,
                             imageUri = u \<rparr>
                    else None)
           | _ \<Rightarrow> None))"

definition parse_object :: "string \<Rightarrow> (FoodData \<times> string) option" where
  "parse_object s =
     (case s of
        [] \<Rightarrow> None
      | c # r \<Rightarrow>
          if c = CHR ''{'' then
            (case parse_members (length r) [] r of
               None \<Rightarrow> None
             | Some (ms, r') \<Rightarrow>
                 (case food_of_members ms of None \<Rightarrow> None | Some f \<Rightarrow> Some (f, r')))
          else None)"

fun parse_elements ::
  "nat \<Rightarrow> FoodData list \<Rightarrow> string \<Rightarrow> (FoodData list \<times> string) option" where
  "parse_elements 0 acc s = None"
| "parse_elements (Suc n) acc s =
     (case parse_object (skip_ws s) of
        None \<Rightarrow> None
      | Some (f, r) \<Rightarrow>
          (case skip_ws r of
             [] \<Rightarrow> None
           | c # r' \<Rightarrow>
               if c = CHR '','' then parse_elements n (f # acc) r'
               else if c = CHR '']'' then Some (rev (f # acc), r')
               else None))"

definition json_parse :: "string \<Rightarrow> FoodData list option" where
  "json_parse s =
     (case skip_ws s of
        [] \<Rightarrow> None
      | c # r \<Rightarrow>
          if c = CHR ''['' then
            (case skip_ws r of
               [] \<Rightarrow> None
             | d # r' \<Rightarrow>
                 if d = CHR '']'' then (if skip_ws r' = [] then Some [] else None)
                 else
                   (case parse_elements (length r) [] r of
                      None \<Rightarrow> None
                    | Some (foods, r'') \<Rightarrow> if skip_ws r'' = [] then Some foods else None))
          else None)"

section \<open>Sample instance\<close>

text \<open>
  An instance of the built-in functions on ASCII texts, with the model of JSON above, and
  sample data for the examples below.
\<close>

definition ascii_whitespace :: "char \<Rightarrow> bool" where
  "ascii_whitespace c = (c \<in> set [CHR 0x09, CHR 0x0A, CHR 0x0B, CHR 0x0C, CHR 0x0D, CHR '' ''])"

definition ascii_lower :: "char \<Rightarrow> char" where
  "ascii_lower c =
     (case map_of (zip ''ABCDEFGHIJKLMNOPQRSTUVWXYZ'' ''abcdefghijklmnopqrstuvwxyz'') c of
        Some l \<Rightarrow> l
      | None \<Rightarrow> c)"

definition is_digit :: "char \<Rightarrow> bool" where
  "is_digit c = (c \<in> set ''0123456789'')"

definition strip_sign :: "string \<Rightarrow> string" where
  "strip_sign s =
     (case s of [] \<Rightarrow> [] | c # cs \<Rightarrow> if c = CHR ''+'' \<or> c = CHR ''-'' then cs else s)"

definition is_mantissa :: "string \<Rightarrow> bool" where
  "is_mantissa m =
     (let ip = takeWhile (\<lambda>c. c \<noteq> CHR ''.'') m;
          fp = dropWhile (\<lambda>c. c \<noteq> CHR ''.'') m
      in list_all is_digit ip \<and>
         (if fp = [] then ip \<noteq> []
          else list_all is_digit (tl fp) \<and> (ip \<noteq> [] \<or> tl fp \<noteq> [])))"

definition is_exponent :: "string \<Rightarrow> bool" where
  "is_exponent e =
     (e = [] \<or> (let d = strip_sign (tl e) in d \<noteq> [] \<and> list_all is_digit d))"

definition is_decimal_literal :: "string \<Rightarrow> bool" where
  "is_decimal_literal s =
     (let u = strip_sign s;
          m = takeWhile (\<lambda>c. c \<noteq> CHR ''e'' \<and> c \<noteq> CHR ''E'') u;
          e = dropWhile (\<lambda>c. c \<noteq> CHR ''e'' \<and> c \<noteq> CHR ''E'') u
      in u = ''Infinity'' \<or> (is_mantissa m \<and> is_exponent e))"

definition is_radix_literal :: "string \<Rightarrow> bool" where
  "is_radix_literal s =
     (case s of
        z # x # ds \<Rightarrow>
          z = CHR ''0'' \<and> ds \<noteq> [] \<and>
          (x \<in> set ''xX'' \<and> list_all (\<lambda>c. c \<in> set ''0123456789abcdefABCDEF'') ds \<or>
           x \<in> set ''oO'' \<and> list_all (\<lambda>c. c \<in> set ''01234567'') ds \<or>
           x \<in> set ''bB'' \<and> list_all (\<lambda>c. c \<in> set ''01'') ds)
      | _ \<Rightarrow> False)"

definition ascii_isNaN_Number :: "string \<Rightarrow> bool" where
  "ascii_isNaN_Number s =
     (let t = rev (dropWhile ascii_whitespace (rev (dropWhile ascii_whitespace s)))
      in \<not> (t = [] \<or> is_radix_literal t \<or> is_decimal_literal t))"

definition apple_pie :: FoodData where
  "apple_pie =
     \<lparr> food_id = Some ''1700000000000'', foodName = ''Apple Pie'', category = ''snack'',
       calories = ''300'', weight = ''120'', protein = ''3'', carbs = ''40'', fat = ''14'',
       fiber = ''2'', imageUri = Some [] \<rparr>"

definition banana :: FoodData where
  "banana =
     \<lparr> food_id = Some ''1700000000001'', foodName = ''banana'', category = ''produce'',
       calories = ''90'', weight = ''100'', protein = ''1'', carbs = ''23'', fat = ''0'',
       fiber = ''3'', imageUri = Some [] \<rparr>"

definition ascii_builtins :: builtins where
  "ascii_builtins =
     \<lparr> JSON_parse = json_parse, JSON_stringify = json_text, JSON_stringify_2 = json_text_2,
       isWhiteSpace = ascii_whitespace, isNaN_Number = ascii_isNaN_Number \<rparr>"

text \<open>
  A device that holds the two sample records, on which no call fails and the clock
  starts after the ids of the records.
\<close>

definition sample_device :: world where
  "sample_device =
     \<lparr> documentDirectory = ''file:///data/'',
       dirs = {''file:///data/foods/''},
       files = [''file:///data/foods/foods.json'' \<mapsto> json_text_2 [apple_pie, banana]],
       fault_at = (\<lambda>n. False), fs_calls = 0,
       clock = (\<lambda>n. 1700000000002 + n), now_calls = 0 \<rparr>"

text \<open>A device just installed: no directory, no document.\<close>

definition fresh_device :: world where
  "fresh_device =
     \<lparr> documentDirectory = ''file:///data/'', dirs = {}, files = Map.empty,
       fault_at = (\<lambda>n. False), fs_calls = 0,
       clock = (\<lambda>n. 1700000000002 + n), now_calls = 0 \<rparr>"

definition pear_form :: form_state where
  "pear_form =
     \<lparr> foodName_st = '' Pear '', calories_st = ''57'', weight_st = ''100'', protein_st = [],
       carbs_st = ''15'', fat_st = [], fiber_st = ''3'', imageUri_st = [],
       category_st = ''produce'' \<rparr>"

section \<open>Reading back what was written\<close>

lemma escape_entries:
  "\<forall>(c, e) \<in> set json_escapes. \<forall>acc tl. parse_chars acc (e @ tl) = parse_chars (c # acc) tl"
  by (simp add: json_escapes_def unicode_escape_def hex_value_def short_escape_def char_of_def
      bit_iff_odd)

lemma control_chars_escaped: "set control_chars \<subseteq> fst ` set json_escapes"
  by (simp add: control_chars_def json_escapes_def upt_rec char_of_def bit_iff_odd)

lemma quote_backslash_escaped:
  "CHR 0x22 \<in> fst ` set json_escapes" "CHR 0x5C \<in> fst ` set json_escapes"
  by (simp_all add: json_escapes_def)

lemma parse_chars_escape: "parse_chars acc (json_escape c @ rest0) = parse_chars (c # acc) rest0"
proof (cases "map_of json_escapes c")
  case None
  then have n: "c \<notin> fst ` set json_escapes"
    by (simp add: map_of_eq_None_iff)
  then have "c \<noteq> CHR 0x22" "c \<noteq> CHR 0x5C" "c \<notin> set control_chars"
    using quote_backslash_escaped control_chars_escaped by auto
  then show ?thesis
    using None by (simp add: json_escape_def)
next
  case (Some e)
  then have "(c, e) \<in> set json_escapes"
    by (rule map_of_SomeD)
  then have "parse_chars acc (e @ rest0) = parse_chars (c # acc) rest0"
    using escape_entries by blast
  then show ?thesis
    using Some by (simp add: json_escape_def)
qed

lemma parse_chars_quote:
  "parse_chars acc (concat (map json_escape s) @ CHR 0x22 # rest) = Some (rev acc @ s, rest)"
proof (induction s arbitrary: acc)
  case Nil
  show ?case by simp
next
  case (Cons c s)
  have "parse_chars acc (concat (map json_escape (c # s)) @ CHR 0x22 # rest)
      = parse_chars acc (json_escape c @ (concat (map json_escape s) @ CHR 0x22 # rest))"
    by simp
  also have "\<dots> = parse_chars (c # acc) (concat (map json_escape s) @ CHR 0x22 # rest)"
    by (rule parse_chars_escape)
  also have "\<dots> = Some (rev (c # acc) @ s, rest)"
    by (rule Cons.IH)
  finally show ?case by simp
qed

lemma parse_string_quote: "parse_string (json_quote s @ rest) = Some (s, rest)"
  using parse_chars_quote [of "[]" s rest] by (simp add: parse_string_def json_quote_def)

lemma json_quote_Cons: "\<exists>t. json_quote s = CHR 0x22 # t"
  by (simp add: json_quote_def)

lemma skip_ws_quote [simp]: "skip_ws (json_quote s @ rest) = json_quote s @ rest"
  by (simp add: skip_ws_def json_quote_def json_whitespace_def)

lemma skip_ws_simps [simp]:
  "skip_ws (CHR '' '' # s) = skip_ws s"
  "skip_ws (CHR 0x0A # s) = skip_ws s"
  "skip_ws (CHR '':'' # s) = CHR '':'' # s"
  "skip_ws (CHR '','' # s) = CHR '','' # s"
  "skip_ws (CHR ''{'' # s) = CHR ''{'' # s"
  "skip_ws (CHR ''}'' # s) = CHR ''}'' # s"
  "skip_ws (CHR ''['' # s) = CHR ''['' # s"
  "skip_ws (CHR '']'' # s) = CHR '']'' # s"
  "skip_ws [] = []"
  by (simp_all add: skip_ws_def json_whitespace_def)

lemma skip_ws_append: "list_all json_whitespace ws \<Longrightarrow> skip_ws (ws @ s) = skip_ws s"
  by (simp add: skip_ws_def list_all_iff)

lemma parse_member_text:
  assumes "list_all json_whitespace ind" and "list_all json_whitespace sp"
  shows "parse_member (skip_ws (ind @ json_quote k @ CHR '':'' # sp @ json_quote v @ rest))
     = Some ((k, v), rest)"
proof -
  have "parse_string (json_quote k @ (CHR '':'' # sp @ json_quote v @ rest))
      = Some (k, CHR '':'' # sp @ json_quote v @ rest)"
    by (rule parse_string_quote)
  moreover have "parse_string (skip_ws (sp @ json_quote v @ rest)) = Some (v, rest)"
    using assms(2) by (simp add: skip_ws_append parse_string_quote)
  ultimately show ?thesis
    using assms(1) by (simp add: skip_ws_append parse_member_def)
qed

lemma join_Cons: "join sep (x # xs) = x @ (if xs = [] then [] else sep @ join sep xs)"
  by (cases xs) simp_all

lemma length_join:
  assumes "\<And>x. x \<in> set xs \<Longrightarrow> g x \<noteq> []"
  shows "length xs \<le> length (join sep (map g xs))"
  using assms
proof (induction xs)
  case Nil
  show ?case by simp
next
  case (Cons x xs)
  have "g x \<noteq> []" using Cons.prems by simp
  then have "1 \<le> length (g x)" by (cases "g x") simp_all
  moreover have "length xs \<le> length (join sep (map g xs))"
    using Cons by simp
  ultimately show ?case by (simp add: join_Cons)
qed

declare parse_members.simps [simp del]

lemma parse_members_ws:
  "json_whitespace c \<Longrightarrow> parse_members n acc (c # s) = parse_members n acc s"
  by (cases n) (simp_all add: skip_ws_def parse_members.simps)

lemma parse_members_skip:
  "list_all json_whitespace ws \<Longrightarrow> parse_members n acc (ws @ s) = parse_members n acc s"
  by (induction ws) (simp_all add: parse_members_ws)

lemma parse_members_join:
  assumes ind: "list_all json_whitespace ind" and sp: "list_all json_whitespace sp"
    and nl: "list_all json_whitespace nl" and nl2: "list_all json_whitespace nl2"
    and g: "\<And>m. g m = ind @ json_quote (fst m) @ CHR '':'' # sp @ json_quote (snd m)"
  shows "ms \<noteq> [] \<Longrightarrow> length ms \<le> n \<Longrightarrow>
     parse_members n acc (join (CHR '','' # nl) (map g ms) @ nl2 @ CHR ''}'' # rest)
       = Some (rev acc @ ms, rest)"
proof (induction ms arbitrary: n acc)
  case Nil
  then show ?case by simp
next
  case (Cons m ms)
  obtain k v where m: "m = (k, v)" by (cases m)
  have gm: "g (k, v) = ind @ json_quote k @ CHR '':'' # sp @ json_quote v"
    by (simp add: g)
  obtain n' where n: "n = Suc n'" using Cons.prems(2) by (cases n) auto
  show ?case
  proof (cases "ms = []")
    case True
    have "parse_member (skip_ws (ind @ json_quote k @ CHR '':'' # sp @ json_quote v @ (nl2 @ CHR ''}'' # rest)))
        = Some ((k, v), nl2 @ CHR ''}'' # rest)"
      using ind sp by (rule parse_member_text)
    moreover have "skip_ws (nl2 @ CHR ''}'' # rest) = CHR ''}'' # rest"
      using nl2 by (simp add: skip_ws_append)
    ultimately show ?thesis
      using True n m by (simp add: gm parse_members.simps)
  next
    case False
    let ?tail = "join (CHR '','' # nl) (map g ms) @ nl2 @ CHR ''}'' # rest"
    have "parse_member (skip_ws (ind @ json_quote k @ CHR '':'' # sp @ json_quote v @ (CHR '','' # nl @ ?tail)))
        = Some ((k, v), CHR '','' # nl @ ?tail)"
      using ind sp by (rule parse_member_text)
    moreover have "parse_members n' ((k, v) # acc) (nl @ ?tail) = Some (rev ((k, v) # acc) @ ms, rest)"
    proof -
      have "parse_members n' ((k, v) # acc) ?tail = Some (rev ((k, v) # acc) @ ms, rest)"
        using False Cons.prems(2) n by (intro Cons.IH) simp_all
      then show ?thesis using nl by (simp add: parse_members_skip)
    qed
    ultimately show ?thesis
      using False n m by (simp add: gm join_Cons parse_members.simps)
  qed
qed

lemma food_of_json_members: "food_of_members (json_members f) = Some f"
  by (cases "food_id f"; cases "imageUri f")
    (simp_all add: food_of_members_def json_members_def optional_member_def required_member_def)

lemma json_members_nonempty: "json_members f \<noteq> []"
  by (simp add: json_members_def)

lemma json_quote_nonempty: "json_quote s \<noteq> []"
  by (simp add: json_quote_def)

lemma parse_object_text:
  assumes ind: "list_all json_whitespace ind" and sp: "list_all json_whitespace sp"
    and nl: "list_all json_whitespace nl" and nl1: "list_all json_whitespace nl1"
    and nl2: "list_all json_whitespace nl2" and oi: "list_all json_whitespace oi"
    and g: "\<And>m. g m = ind @ json_quote (fst m) @ CHR '':'' # sp @ json_quote (snd m)"
  shows "parse_object (skip_ws (oi @ CHR ''{'' # nl1 @ join (CHR '','' # nl) (map g (json_members f))
           @ nl2 @ CHR ''}'' # rest)) = Some (f, rest)"
proof -
  let ?body = "join (CHR '','' # nl) (map g (json_members f)) @ nl2 @ CHR ''}'' # rest"
  have "g m \<noteq> []" for m
    by (simp add: g json_quote_nonempty)
  then have "length (json_members f) \<le> length (join (CHR '','' # nl) (map g (json_members f)))"
    by (intro length_join) simp
  then have len: "length (json_members f) \<le> length (nl1 @ ?body)"
    by simp
  have "parse_members (length (nl1 @ ?body)) [] ?body = Some (rev [] @ json_members f, rest)"
    using ind sp nl nl2 g json_members_nonempty len by (rule parse_members_join)
  then have "parse_members (length (nl1 @ ?body)) [] (nl1 @ ?body) = Some (json_members f, rest)"
    using nl1 by (simp add: parse_members_skip)
  moreover have "skip_ws (oi @ CHR ''{'' # nl1 @ ?body) = CHR ''{'' # nl1 @ ?body"
    using oi by (simp add: skip_ws_append)
  ultimately show ?thesis
    by (simp add: parse_object_def food_of_json_members)
qed


declare parse_elements.simps [simp del]

lemma parse_elements_ws:
  "json_whitespace c \<Longrightarrow> parse_elements n acc (c # s) = parse_elements n acc s"
  by (cases n) (simp_all add: skip_ws_def parse_elements.simps)

lemma parse_elements_skip:
  "list_all json_whitespace ws \<Longrightarrow> parse_elements n acc (ws @ s) = parse_elements n acc s"
  by (induction ws) (simp_all add: parse_elements_ws)

lemma parse_elements_join:
  assumes nl: "list_all json_whitespace nl" and nl2: "list_all json_whitespace nl2"
    and h: "\<And>f rest. parse_object (skip_ws (h f @ rest)) = Some (f, rest)"
  shows "fs \<noteq> [] \<Longrightarrow> length fs \<le> n \<Longrightarrow>
     parse_elements n acc (join (CHR '','' # nl) (map h fs) @ nl2 @ CHR '']'' # rest)
       = Some (rev acc @ fs, rest)"
proof (induction fs arbitrary: n acc)
  case Nil
  then show ?case by simp
next
  case (Cons f fs)
  obtain n' where n: "n = Suc n'" using Cons.prems(2) by (cases n) auto
  show ?case
  proof (cases "fs = []")
    case True
    have "parse_object (skip_ws (h f @ (nl2 @ CHR '']'' # rest))) = Some (f, nl2 @ CHR '']'' # rest)"
      by (rule h)
    moreover have "skip_ws (nl2 @ CHR '']'' # rest) = CHR '']'' # rest"
      using nl2 by (simp add: skip_ws_append)
    ultimately show ?thesis
      using True n by (simp add: parse_elements.simps)
  next
    case False
    let ?tail = "join (CHR '','' # nl) (map h fs) @ nl2 @ CHR '']'' # rest"
    have "parse_object (skip_ws (h f @ (CHR '','' # nl @ ?tail))) = Some (f, CHR '','' # nl @ ?tail)"
      by (rule h)
    moreover have "parse_elements n' (f # acc) (nl @ ?tail) = Some (rev (f # acc) @ fs, rest)"
    proof -
      have "parse_elements n' (f # acc) ?tail = Some (rev (f # acc) @ fs, rest)"
        using False Cons.prems(2) n by (intro Cons.IH) simp_all
      then show ?thesis using nl by (simp add: parse_elements_skip)
    qed
    ultimately show ?thesis
      using False n by (simp add: join_Cons parse_elements.simps)
  qed
qed

lemma json_parse_join:
  assumes nl0: "list_all json_whitespace nl0" and nl: "list_all json_whitespace nl"
    and nl2: "list_all json_whitespace nl2" and oi: "list_all json_whitespace oi"
    and h: "\<And>f rest. parse_object (skip_ws (h f @ rest)) = Some (f, rest)"
    and shape: "\<And>f. \<exists>t. h f = oi @ CHR ''{'' # t"
    and fs: "fs \<noteq> []"
  shows "json_parse (CHR ''['' # nl0 @ join (CHR '','' # nl) (map h fs) @ nl2 @ '']'') = Some fs"
proof -
  let ?r = "nl0 @ join (CHR '','' # nl) (map h fs) @ nl2 @ '']''"
  obtain f fs' where c: "fs = f # fs'" using fs by (cases fs) auto
  obtain t where t: "h f = oi @ CHR ''{'' # t" using shape by blast
  have "\<exists>t'. join (CHR '','' # nl) (map h fs) = oi @ CHR ''{'' # t'"
    using c t by (simp add: join_Cons)
  then obtain t' where t': "join (CHR '','' # nl) (map h fs) = oi @ CHR ''{'' # t'"
    by blast
  have sk: "skip_ws ?r = CHR ''{'' # t' @ nl2 @ '']''"
    using nl0 oi by (simp add: t' skip_ws_append)
  have "h x \<noteq> []" for x
    using shape [of x] by auto
  then have "length fs \<le> length (join (CHR '','' # nl) (map h fs))"
    by (intro length_join) simp
  then have len: "length fs \<le> length ?r"
    by simp
  have "parse_elements (length ?r) [] (join (CHR '','' # nl) (map h fs) @ nl2 @ CHR '']'' # [])
      = Some (rev [] @ fs, [])"
    using nl nl2 h fs len by (rule parse_elements_join)
  then have p: "parse_elements (length ?r) [] ?r = Some (fs, [])"
    using nl0 by (simp add: parse_elements_skip)
  show ?thesis
    using sk p by (simp add: json_parse_def)
qed

lemma parse_object_text_2: "parse_object (skip_ws (object_text_2 f @ rest)) = Some (f, rest)"
proof -
  have "parse_object (skip_ws (''  '' @ CHR ''{'' # [CHR 0x0A] @
      join (CHR '','' # [CHR 0x0A]) (map member_text_2 (json_members f)) @
      [CHR 0x0A, CHR '' '', CHR '' ''] @ CHR ''}'' # rest)) = Some (f, rest)"
    by (rule parse_object_text [where ind = "''    ''" and sp = "'' ''"])
      (simp_all add: json_whitespace_def member_text_2_def)
  then show ?thesis by (simp add: object_text_2_def)
qed

lemma parse_object_text_1: "parse_object (skip_ws (object_text f @ rest)) = Some (f, rest)"
proof -
  have "parse_object (skip_ws ([] @ CHR ''{'' # [] @
      join (CHR '','' # []) (map member_text (json_members f)) @ [] @ CHR ''}'' # rest))
      = Some (f, rest)"
    by (rule parse_object_text [where ind = "[]" and sp = "[]"]) (simp_all add: member_text_def)
  then show ?thesis by (simp add: object_text_def)
qed

lemma json_parse_text_2 [simp]: "json_parse (json_text_2 foods) = Some foods"
proof (cases "foods = []")
  case True
  then show ?thesis by (simp add: json_text_2_def json_parse_def)
next
  case False
  have "json_parse (CHR ''['' # [CHR 0x0A] @ join (CHR '','' # [CHR 0x0A]) (map object_text_2 foods)
      @ [CHR 0x0A] @ '']'') = Some foods"
  proof (rule json_parse_join [where oi = "''  ''"])
    show "\<exists>t. object_text_2 f = ''  '' @ CHR ''{'' # t" for f
      by (simp add: object_text_2_def)
  qed (simp_all add: json_whitespace_def parse_object_text_2 False)
  then show ?thesis using False by (simp add: json_text_2_def)
qed

lemma json_parse_text [simp]: "json_parse (json_text foods) = Some foods"
proof (cases "foods = []")
  case True
  then show ?thesis by (simp add: json_text_def json_parse_def)
next
  case False
  have "json_parse (CHR ''['' # [] @ join (CHR '','' # []) (map object_text foods) @ [] @ '']'')
      = Some foods"
  proof (rule json_parse_join [where oi = "[]"])
    show "\<exists>t. object_text f = [] @ CHR ''{'' # t" for f
      by (simp add: object_text_def)
  qed (simp_all add: parse_object_text_1 False)
  then show ?thesis by (simp add: json_text_def)
qed

lemma json_parse_examples:
  "json_parse ''[]'' = Some []"
  "json_parse '' [ ] '' = Some []"
  "json_parse ''[{}]'' = None"
  "json_parse ''abc'' = None"
  "json_parse [] = None"
  by (simp_all add: json_parse_def skip_ws_def json_whitespace_def parse_elements.simps
      parse_object_def parse_members.simps parse_member_def parse_string_def)

text \<open>Fuel only bounds the loops: a result stays the same with more fuel.\<close>

lemma parse_members_more_fuel:
  "parse_members n acc s = Some x \<Longrightarrow> parse_members (n + k) acc s = Some x"
proof (induction n arbitrary: acc s)
  case 0
  then show ?case by (simp add: parse_members.simps)
next
  case (Suc n)
  then show ?case
    by (auto simp: parse_members.simps split: option.splits list.splits if_splits)
qed

lemma parse_elements_more_fuel:
  "parse_elements n acc s = Some x \<Longrightarrow> parse_elements (n + k) acc s = Some x"
proof (induction n arbitrary: acc s)
  case 0
  then show ?case by (simp add: parse_elements.simps)
next
  case (Suc n)
  then show ?case
    by (auto simp: parse_elements.simps split: option.splits list.splits if_splits)
qed

section \<open>The store when no call fails\<close>

lemmas sample_defs = ascii_builtins_def apple_pie_def banana_def
  ascii_whitespace_def ascii_isNaN_Number_def is_radix_literal_def is_decimal_literal_def
  is_mantissa_def is_exponent_def is_digit_def strip_sign_def pear_form_def

text \<open>Facts about the sample instance, by evaluation.\<close>

lemmas device_defs = sample_device_def fresh_device_def FOODS_FILE_PATH_def DATA_DIRECTORY_def

lemma sample_builtins_simps [simp]:
  "JSON_parse ascii_builtins = json_parse"
  "JSON_stringify ascii_builtins = json_text"
  "JSON_stringify_2 ascii_builtins = json_text_2"
  by (simp_all add: ascii_builtins_def)

lemma pear_form_valid [simp]: "validateForm ascii_builtins pear_form = None"
  by (simp add: validateForm_def trim_def sample_defs)

lemma pear_form_image [simp]: "imageUri_st pear_form = []"
  by (simp add: pear_form_def)

lemma toString_samples:
  "toString 1700000000000 = ''1700000000000''"
  "toString 1700000000001 = ''1700000000001''"
  "toString 1700000000002 = ''1700000000002''"
  by (simp_all add: toString.simps digit_char_def)

lemma sample_ids [simp]:
  "food_id apple_pie = Some ''1700000000000''" "food_id banana = Some ''1700000000001''"
  by (simp_all add: apple_pie_def banana_def)

lemma initial_id_apple_pie: "initial_id (Some apple_pie) = Some ''1700000000000''"
  by (simp add: initial_id_def apple_pie_def)

lemma initial_id_other: "initial_id (Some (apple_pie\<lparr>food_id := Some ''42''\<rparr>)) = Some ''42''"
  by (simp add: initial_id_def)

lemmas io_defs = await_def return_def throw_def try_catch_def getInfoAsync_def
  makeDirectoryAsync_def writeAsStringAsync_def readAsStringAsync_def copyAsync_def
  ensureDirectoryExists_def parse_json_def Date_now_def Let_def

lemma paths_same_device:
  "same_device w w' \<Longrightarrow> FOODS_FILE_PATH w' = FOODS_FILE_PATH w \<and> DATA_DIRECTORY w' = DATA_DIRECTORY w"
  by (simp add: same_device_def FOODS_FILE_PATH_def DATA_DIRECTORY_def)

lemma fault_free_same_device: "fault_free w \<Longrightarrow> same_device w w' \<Longrightarrow> fault_free w'"
  by (auto simp: fault_free_def same_device_def)

lemma data_dir_neq_file: "FOODS_FILE_PATH w \<noteq> DATA_DIRECTORY w"
  by (simp add: FOODS_FILE_PATH_def)

lemma loadFoods_fault_free:
  assumes "fault_free w" and "stored B w foods"
  shows "fst (loadFoods B w) = Inr foods"
    and "same_device w (snd (loadFoods B w))"
    and "now_calls (snd (loadFoods B w)) = now_calls w"
    and "files (snd (loadFoods B w)) =
           (if files w (FOODS_FILE_PATH w) = None
            then (files w)(FOODS_FILE_PATH w \<mapsto> JSON_stringify B []) else files w)"
proof -
  have nf: "\<not> fault_at w (fs_calls w)" "\<not> fault_at w (Suc (fs_calls w))"
    "\<not> fault_at w (Suc (Suc (fs_calls w)))" "\<not> fault_at w (Suc (Suc (Suc (fs_calls w))))"
    using assms(1) by (simp_all add: fault_free_def)
  note ne = data_dir_neq_file [of w]
  show "fst (loadFoods B w) = Inr foods"
    using nf ne assms(2)
    by (auto simp: loadFoods_def io_defs stored_def split: option.splits)
  show "same_device w (snd (loadFoods B w))"
    using nf ne assms(2)
    by (auto simp: loadFoods_def io_defs stored_def same_device_def split: option.splits)
  show "now_calls (snd (loadFoods B w)) = now_calls w"
    using nf ne assms(2)
    by (auto simp: loadFoods_def io_defs stored_def split: option.splits)
  show "files (snd (loadFoods B w)) =
           (if files w (FOODS_FILE_PATH w) = None
            then (files w)(FOODS_FILE_PATH w \<mapsto> JSON_stringify B []) else files w)"
    using nf ne assms(2)
    by (auto simp: loadFoods_def io_defs stored_def split: option.splits)
qed

lemma saveFoods_fault_free:
  assumes "fault_free w"
  shows "fst (saveFoods B foods w) = Inr ()"
    and "same_device w (snd (saveFoods B foods w))"
    and "now_calls (snd (saveFoods B foods w)) = now_calls w"
    and "files (snd (saveFoods B foods w)) = (files w)(FOODS_FILE_PATH w \<mapsto> JSON_stringify_2 B foods)"
proof -
  have nf: "\<not> fault_at w (fs_calls w)" "\<not> fault_at w (Suc (fs_calls w))"
    "\<not> fault_at w (Suc (Suc (fs_calls w)))"
    using assms(1) by (simp_all add: fault_free_def)
  show "fst (saveFoods B foods w) = Inr ()"
    using nf by (auto simp: saveFoods_def io_defs)
  show "same_device w (snd (saveFoods B foods w))"
    using nf by (auto simp: saveFoods_def io_defs same_device_def)
  show "now_calls (snd (saveFoods B foods w)) = now_calls w"
    using nf by (auto simp: saveFoods_def io_defs)
  show "files (snd (saveFoods B foods w)) = (files w)(FOODS_FILE_PATH w \<mapsto> JSON_stringify_2 B foods)"
    using nf by (auto simp: saveFoods_def io_defs)
qed


lemma image_path_neq_file:
  "DATA_DIRECTORY w @ i @ ''_'' @ ts @ ''.jpg'' \<noteq> FOODS_FILE_PATH w"
proof
  assume "DATA_DIRECTORY w @ i @ ''_'' @ ts @ ''.jpg'' = FOODS_FILE_PATH w"
  then have "i @ ''_'' @ ts @ ''.jpg'' = ''foods.json''"
    by (simp add: FOODS_FILE_PATH_def)
  then have "last (i @ ''_'' @ ts @ ''.jpg'') = last ''foods.json''"
    by (rule arg_cong)
  then show False by simp
qed

lemma stored_cong:
  assumes "same_device w w'" and "files w' (FOODS_FILE_PATH w) = files w (FOODS_FILE_PATH w)"
    and "dirs w' = dirs w"
  shows "stored B w' foods = stored B w foods"
  using assms paths_same_device [OF assms(1)] by (simp add: stored_def split: option.splits)

lemma submit_id_result:
  "fst (submit_id initialData w) =
     Inr (case initial_id initialData of Some i \<Rightarrow> i | None \<Rightarrow> toString (clock w (now_calls w)))"
  "same_device w (snd (submit_id initialData w))"
  "fs_calls (snd (submit_id initialData w)) = fs_calls w"
  "files (snd (submit_id initialData w)) = files w"
  "dirs (snd (submit_id initialData w)) = dirs w"
  by (auto simp: submit_id_def io_defs same_device_def split: option.splits)

lemma copyImage_fault_free:
  assumes "fault_free w" and "imageUri_st st = [] \<or> files w (imageUri_st st) \<noteq> None"
  shows "fst (copyImage i st food w) =
           Inr (if imageUri_st st = [] then food
                else food\<lparr>imageUri :=
                  Some (DATA_DIRECTORY w @ i @ ''_'' @ toString (clock w (now_calls w)) @ ''.jpg'')\<rparr>)"
    and "same_device w (snd (copyImage i st food w))"
    and "files (snd (copyImage i st food w)) (FOODS_FILE_PATH w) = files w (FOODS_FILE_PATH w)"
    and "dirs (snd (copyImage i st food w)) = dirs w"
proof -
  have nf: "\<not> fault_at w (fs_calls w)"
    using assms(1) by (simp add: fault_free_def)
  have ne: "DATA_DIRECTORY w @ i @ ''_'' @ toString (clock w (now_calls w)) @ ''.jpg''
      \<noteq> FOODS_FILE_PATH w"
    "FOODS_FILE_PATH w
      \<noteq> DATA_DIRECTORY w @ i @ ''_'' @ toString (clock w (now_calls w)) @ ''.jpg''"
    using image_path_neq_file [of w i "toString (clock w (now_calls w))"] by auto
  show "fst (copyImage i st food w) =
           Inr (if imageUri_st st = [] then food
                else food\<lparr>imageUri :=
                  Some (DATA_DIRECTORY w @ i @ ''_'' @ toString (clock w (now_calls w)) @ ''.jpg'')\<rparr>)"
    using nf assms(2) by (auto simp: copyImage_def io_defs split: option.splits)
  show "same_device w (snd (copyImage i st food w))"
    using nf assms(2) by (auto simp: copyImage_def io_defs same_device_def split: option.splits)
  show "files (snd (copyImage i st food w)) (FOODS_FILE_PATH w) = files w (FOODS_FILE_PATH w)"
    using nf assms(2) ne by (auto simp: copyImage_def io_defs split: option.splits)
  show "dirs (snd (copyImage i st food w)) = dirs w"
    using nf assms(2) by (auto simp: copyImage_def io_defs split: option.splits)
qed

lemma same_device_trans: "same_device w w1 \<Longrightarrow> same_device w1 w2 \<Longrightarrow> same_device w w2"
  by (auto simp: same_device_def)

lemma handleSubmit_try_fault_free:
  assumes ff: "fault_free w" and st: "stored B w foods"
    and img: "imageUri_st st = [] \<or> files w (imageUri_st st) \<noteq> None"
  shows "\<exists>u. (imageUri_st st = [] \<longrightarrow> u = [])
           \<and> fst (handleSubmit_try B initialData st w) = Inr ()
           \<and> files (snd (handleSubmit_try B initialData st w)) (FOODS_FILE_PATH w) =
               Some (JSON_stringify_2 B
                 (upsert initialData ((newFood B (minted_id initialData w) st)\<lparr>imageUri := Some u\<rparr>) foods))"
proof -
  define i where "i = minted_id initialData w"
  define w1 where "w1 = snd (submit_id initialData w)"
  define r2 where "r2 = copyImage i st (newFood B i st) w1"
  define w2 where "w2 = snd r2"
  define w3 where "w3 = snd (loadFoods B w2)"
  have s1: "submit_id initialData w = (Inr i, w1)"
    by (simp add: prod_eq_iff submit_id_result i_def w1_def minted_id_def)
  have d1: "same_device w w1" and f1: "files w1 = files w" and dr1: "dirs w1 = dirs w"
    and c1: "fs_calls w1 = fs_calls w"
    by (simp_all add: w1_def submit_id_result)
  have ff1: "fault_free w1"
    using ff d1 by (rule fault_free_same_device)
  have p1: "FOODS_FILE_PATH w1 = FOODS_FILE_PATH w"
    using paths_same_device [OF d1] by simp
  have img1: "imageUri_st st = [] \<or> files w1 (imageUri_st st) \<noteq> None"
    using img f1 by simp
  obtain u where s2: "r2 = (Inr ((newFood B i st)\<lparr>imageUri := Some u\<rparr>), w2)"
    and u: "imageUri_st st = [] \<longrightarrow> u = []"
  proof -
    have "fst r2 = Inr (if imageUri_st st = [] then newFood B i st
                else (newFood B i st)\<lparr>imageUri :=
                  Some (DATA_DIRECTORY w1 @ i @ ''_'' @ toString (clock w1 (now_calls w1)) @ ''.jpg'')\<rparr>)"
      unfolding r2_def by (rule copyImage_fault_free(1) [OF ff1 img1])
    then have "\<exists>u. fst r2 = Inr ((newFood B i st)\<lparr>imageUri := Some u\<rparr>)
        \<and> (imageUri_st st = [] \<longrightarrow> u = [])"
      by (cases "imageUri_st st = []") (auto simp: newFood_def)
    then show ?thesis using that by (auto simp: prod_eq_iff w2_def)
  qed
  have d2: "same_device w1 w2"
    unfolding w2_def r2_def by (rule copyImage_fault_free(2) [OF ff1 img1])
  have f2: "files w2 (FOODS_FILE_PATH w) = files w (FOODS_FILE_PATH w)"
    using copyImage_fault_free(3) [OF ff1 img1, of i "newFood B i st"] p1 f1
    by (simp add: w2_def r2_def)
  have dr2: "dirs w2 = dirs w"
    using copyImage_fault_free(4) [OF ff1 img1, of i "newFood B i st"] dr1
    by (simp add: w2_def r2_def)
  have d02: "same_device w w2" using d1 d2 by (rule same_device_trans)
  have ff2: "fault_free w2" using ff d02 by (rule fault_free_same_device)
  have st2: "stored B w2 foods"
    using stored_cong [OF d02 f2 dr2] st by simp
  have p2: "FOODS_FILE_PATH w2 = FOODS_FILE_PATH w"
    using paths_same_device [OF d02] by simp
  have s3: "loadFoods B w2 = (Inr foods, w3)"
    using loadFoods_fault_free(1) [OF ff2 st2] by (simp add: prod_eq_iff w3_def)
  have d3: "same_device w2 w3"
    unfolding w3_def by (rule loadFoods_fault_free(2) [OF ff2 st2])
  have d03: "same_device w w3" using d02 d3 by (rule same_device_trans)
  have ff3: "fault_free w3" using ff d03 by (rule fault_free_same_device)
  have p3: "FOODS_FILE_PATH w3 = FOODS_FILE_PATH w"
    using paths_same_device [OF d03] by simp
  have run: "handleSubmit_try B initialData st w =
               saveFoods B (upsert initialData ((newFood B i st)\<lparr>imageUri := Some u\<rparr>) foods) w3"
    using s1 s2 s3 by (simp add: handleSubmit_try_def await_def r2_def)
  show ?thesis
    using saveFoods_fault_free(1,4) [OF ff3] p3 u by (auto simp: run i_def intro!: exI [of _ u])
qed

lemma findIndex_None: "findIndex P xs = None \<longleftrightarrow> (\<forall>x \<in> set xs. \<not> P x)"
  by (induction xs) (auto split: option.splits)

lemma findIndex_Some:
  "findIndex P xs = Some k \<Longrightarrow> k < length xs \<and> P (xs ! k) \<and> (\<forall>j<k. \<not> P (xs ! j))"
proof (induction xs arbitrary: k)
  case Nil
  then show ?case by simp
next
  case (Cons x xs)
  show ?case
  proof (cases "P x")
    case True
    with Cons.prems show ?thesis by simp
  next
    case False
    with Cons.prems obtain k' where k': "findIndex P xs = Some k'" and k: "k = Suc k'"
      by (auto split: option.splits)
    from Cons.IH [OF k'] have ih: "k' < length xs" "P (xs ! k')" "\<forall>j<k'. \<not> P (xs ! j)"
      by auto
    have "\<forall>j<Suc k'. \<not> P ((x # xs) ! j)"
    proof (intro allI impI)
      fix j assume "j < Suc k'"
      then show "\<not> P ((x # xs) ! j)"
        using False ih(3) by (cases j) auto
    qed
    with ih k show ?thesis by simp
  qed
qed

lemma handleSubmit_fault_free:
  assumes valid: "validateForm B st = None"
    and ff: "fault_free w" and st: "stored B w foods"
    and img: "imageUri_st st = [] \<or> files w (imageUri_st st) \<noteq> None"
  shows "\<exists>u. (imageUri_st st = [] \<longrightarrow> u = [])
           \<and> fst (handleSubmit B initialData st w) = SavedOk
           \<and> files (snd (handleSubmit B initialData st w)) (FOODS_FILE_PATH w) =
               Some (JSON_stringify_2 B
                 (upsert initialData ((newFood B (minted_id initialData w) st)\<lparr>imageUri := Some u\<rparr>) foods))"
proof -
  from handleSubmit_try_fault_free [OF ff st img, of initialData]
  obtain u where u: "imageUri_st st = [] \<longrightarrow> u = []"
    and r: "fst (handleSubmit_try B initialData st w) = Inr ()"
    and f: "files (snd (handleSubmit_try B initialData st w)) (FOODS_FILE_PATH w) =
               Some (JSON_stringify_2 B
                 (upsert initialData ((newFood B (minted_id initialData w) st)\<lparr>imageUri := Some u\<rparr>) foods))"
    by blast
  obtain w' where w': "handleSubmit_try B initialData st w = (Inr (), w')"
    using r by (cases "handleSubmit_try B initialData st w") auto
  have "handleSubmit B initialData st w = (SavedOk, w')"
    using valid w' by (simp add: handleSubmit_def)
  with u f w' show ?thesis by auto
qed

lemma loadFoods_list_fault_free:
  assumes "fault_free w" and "stored B w foods"
  shows "fst (loadFoods_list B w) = Inr foods"
    and "same_device w (snd (loadFoods_list B w))"
    and "files (snd (loadFoods_list B w)) = files w"
    and "dirs (snd (loadFoods_list B w)) = dirs w"
proof -
  have nf: "\<not> fault_at w (fs_calls w)" "\<not> fault_at w (Suc (fs_calls w))"
    using assms(1) by (simp_all add: fault_free_def)
  show "fst (loadFoods_list B w) = Inr foods"
    using nf assms(2) by (auto simp: loadFoods_list_def io_defs stored_def split: option.splits)
  show "same_device w (snd (loadFoods_list B w))"
    using nf assms(2)
    by (auto simp: loadFoods_list_def io_defs stored_def same_device_def split: option.splits)
  show "files (snd (loadFoods_list B w)) = files w"
    using nf assms(2) by (auto simp: loadFoods_list_def io_defs stored_def split: option.splits)
  show "dirs (snd (loadFoods_list B w)) = dirs w"
    using nf assms(2) by (auto simp: loadFoods_list_def io_defs stored_def split: option.splits)
qed

lemma load_then_save_fault_free:
  assumes ff: "fault_free w" and st: "stored B w foods"
  shows "fst (await (loadFoods B) (\<lambda>foods. saveFoods B (g foods)) w) = Inr ()"
    and "files (snd (await (loadFoods B) (\<lambda>foods. saveFoods B (g foods)) w)) =
           (files w)(FOODS_FILE_PATH w \<mapsto> JSON_stringify_2 B (g foods))"
    and "same_device w (snd (await (loadFoods B) (\<lambda>foods. saveFoods B (g foods)) w))"
proof -
  define w1 where "w1 = snd (loadFoods B w)"
  have l: "loadFoods B w = (Inr foods, w1)"
    using loadFoods_fault_free(1) [OF ff st] by (simp add: prod_eq_iff w1_def)
  have d: "same_device w w1"
    unfolding w1_def by (rule loadFoods_fault_free(2) [OF ff st])
  have ff1: "fault_free w1" using ff d by (rule fault_free_same_device)
  have p: "FOODS_FILE_PATH w1 = FOODS_FILE_PATH w"
    using paths_same_device [OF d] by simp
  have f1: "files w1 = (if files w (FOODS_FILE_PATH w) = None
            then (files w)(FOODS_FILE_PATH w \<mapsto> JSON_stringify B []) else files w)"
    unfolding w1_def by (rule loadFoods_fault_free(4) [OF ff st])
  have run: "await (loadFoods B) (\<lambda>foods. saveFoods B (g foods)) w = saveFoods B (g foods) w1"
    using l by (simp add: await_def)
  show "fst (await (loadFoods B) (\<lambda>foods. saveFoods B (g foods)) w) = Inr ()"
    using saveFoods_fault_free(1) [OF ff1] by (simp add: run)
  show "files (snd (await (loadFoods B) (\<lambda>foods. saveFoods B (g foods)) w)) =
           (files w)(FOODS_FILE_PATH w \<mapsto> JSON_stringify_2 B (g foods))"
    using saveFoods_fault_free(4) [OF ff1, of B "g foods"] p f1 by (auto simp: run)
  show "same_device w (snd (await (loadFoods B) (\<lambda>foods. saveFoods B (g foods)) w))"
    using same_device_trans [OF d saveFoods_fault_free(2) [OF ff1, of B "g foods"]]
    by (simp add: run)
qed

lemma handleDelete_fault_free:
  assumes ff: "fault_free w" and st: "stored B w foods" and i: "initial_id initialData = Some i"
  shows "fst (handleDelete B initialData True w) = Some DeletedOk"
    and "files (snd (handleDelete B initialData True w)) =
           (files w)(FOODS_FILE_PATH w \<mapsto> JSON_stringify_2 B (filter (\<lambda>food. food_id food \<noteq> Some i) foods))"
proof -
  let ?m = "await (loadFoods B) (\<lambda>foods. saveFoods B (filter (\<lambda>food. food_id food \<noteq> Some i) foods))"
  obtain w' where r: "?m w = (Inr (), w')"
    using load_then_save_fault_free(1) [OF ff st, of "filter (\<lambda>food. food_id food \<noteq> Some i)"]
    by (cases "?m w") auto
  have h: "handleDelete B initialData True w = (Some DeletedOk, w')"
    using i r by (simp add: handleDelete_def)
  show "fst (handleDelete B initialData True w) = Some DeletedOk"
    using h by simp
  show "files (snd (handleDelete B initialData True w)) =
           (files w)(FOODS_FILE_PATH w \<mapsto> JSON_stringify_2 B (filter (\<lambda>food. food_id food \<noteq> Some i) foods))"
    using load_then_save_fault_free(2) [OF ff st, of "filter (\<lambda>food. food_id food \<noteq> Some i)"] r h
    by simp
qed

lemma deleteFood_fault_free:
  assumes ff: "fault_free w" and st: "stored B w foods"
  shows "fst (deleteFood B i shown w) = None"
    and "fst (snd (deleteFood B i shown w)) = filter (\<lambda>food. food_id food \<noteq> Some i) foods"
    and "files (snd (snd (deleteFood B i shown w))) =
           (files w)(FOODS_FILE_PATH w \<mapsto> JSON_stringify B (filter (\<lambda>food. food_id food \<noteq> Some i) foods))"
proof -
  define w1 where "w1 = snd (loadFoods_list B w)"
  have l: "loadFoods_list B w = (Inr foods, w1)"
    using loadFoods_list_fault_free(1) [OF ff st] by (simp add: prod_eq_iff w1_def)
  have d: "same_device w w1"
    unfolding w1_def by (rule loadFoods_list_fault_free(2) [OF ff st])
  have ff1: "fault_free w1" using ff d by (rule fault_free_same_device)
  then have nf: "\<not> fault_at w1 (fs_calls w1)" by (simp add: fault_free_def)
  have f1: "files w1 = files w"
    unfolding w1_def by (rule loadFoods_list_fault_free(3) [OF ff st])
  show "fst (deleteFood B i shown w) = None"
    using l nf by (simp add: deleteFood_def await_def writeAsStringAsync_def return_def Let_def)
  show "fst (snd (deleteFood B i shown w)) = filter (\<lambda>food. food_id food \<noteq> Some i) foods"
    using l nf by (simp add: deleteFood_def await_def writeAsStringAsync_def return_def Let_def)
  show "files (snd (snd (deleteFood B i shown w))) =
           (files w)(FOODS_FILE_PATH w \<mapsto> JSON_stringify B (filter (\<lambda>food. food_id food \<noteq> Some i) foods))"
    using l nf f1 by (simp add: deleteFood_def await_def writeAsStringAsync_def return_def Let_def)
qed

lemmas run_defs = handleSubmit_def handleSubmit_try_def submit_id_def initial_id_def
  copyImage_def loadFoods_def saveFoods_def upsert_def handleDelete_def deleteFood_def
  loadFoods_list_def io_defs

lemma window2: "c \<le> n \<Longrightarrow> n < Suc (Suc c) \<Longrightarrow> n = c \<or> n = Suc c"
  by arith

lemma window3: "c \<le> n \<Longrightarrow> n < Suc (Suc (Suc c)) \<Longrightarrow> n = c \<or> n = Suc c \<or> n = Suc (Suc c)"
  by arith

lemma window4:
  "c \<le> n \<Longrightarrow> n < Suc (Suc (Suc (Suc c)))
    \<Longrightarrow> n = c \<or> n = Suc c \<or> n = Suc (Suc c) \<or> n = Suc (Suc (Suc c))"
  by arith

section \<open>Failing calls\<close>

lemma loadFoods_never_throws: "fst (loadFoods B w) \<noteq> Inl e"
  by (auto simp: loadFoods_def io_defs split: option.splits)

lemma loadFoods_fault: "fault_during w (snd (loadFoods B w)) \<Longrightarrow> fst (loadFoods B w) = Inr []"
  by (auto simp: loadFoods_def io_defs fault_during_def split: option.splits if_splits
      dest: window2 window3 window4)

lemma loadFoods_malformed:
  "files w (FOODS_FILE_PATH w) = Some c \<Longrightarrow> JSON_parse B c = None \<Longrightarrow> fst (loadFoods B w) = Inr []"
  by (auto simp: loadFoods_def io_defs split: option.splits)

lemma loadFoods_list_fault:
  "fault_during w (snd (loadFoods_list B w)) \<Longrightarrow> fst (loadFoods_list B w) = Inr []"
  by (auto simp: loadFoods_list_def io_defs fault_during_def split: option.splits if_splits
      dest: window2 window3)

lemma saveFoods_fault:
  "fault_during w (snd (saveFoods B foods w)) \<Longrightarrow> fst (saveFoods B foods w) = Inl IOError"
  by (auto simp: saveFoods_def io_defs fault_during_def split: option.splits if_splits
      dest: window2 window3)

lemma saveFoods_fault_files:
  "fault_during w (snd (saveFoods B foods w)) \<Longrightarrow> files (snd (saveFoods B foods w)) = files w"
  by (auto simp: saveFoods_def io_defs fault_during_def split: option.splits if_splits
      dest: window2 window3)

text \<open>
  C8: \<^verbatim>\<open>loadFoods\<close> never throws, and returns the empty array whenever a call of the file
  system API that it makes fails (the read among them) or the document is malformed;
  the same holds for the \<^verbatim>\<open>loadFoods\<close> of the list screen. Whenever a call that
  \<^verbatim>\<open>saveFoods\<close> makes fails (the write among them), \<^verbatim>\<open>saveFoods\<close> throws the error to its
  caller, and the files are as they were.
\<close>

theorem storage_failure_handling:
  "fst (loadFoods B w) \<noteq> Inl e
   \<and> (fault_during w (snd (loadFoods B w)) \<longrightarrow> fst (loadFoods B w) = Inr [])
   \<and> (files w (FOODS_FILE_PATH w) = Some c \<and> JSON_parse B c = None \<longrightarrow> fst (loadFoods B w) = Inr [])
   \<and> fst (loadFoods_list B w) \<noteq> Inl e
   \<and> (fault_during w (snd (loadFoods_list B w)) \<longrightarrow> fst (loadFoods_list B w) = Inr [])
   \<and> (fault_during w (snd (saveFoods B foods w)) \<longrightarrow>
        fst (saveFoods B foods w) = Inl IOError \<and> files (snd (saveFoods B foods w)) = files w)"
proof -
  have "fst (loadFoods_list B w) \<noteq> Inl e"
    by (auto simp: loadFoods_list_def io_defs split: option.splits)
  then show ?thesis
    using loadFoods_never_throws [of B w e] loadFoods_fault [of w B] loadFoods_malformed [of w c B]
      loadFoods_list_fault [of w B] saveFoods_fault [of w B foods] saveFoods_fault_files [of w B foods]
    by blast
qed

text \<open>
  On the sample device: the third call (the read of \<^verbatim>\<open>loadFoods\<close>) fails, and the second
  call (the write of \<^verbatim>\<open>saveFoods\<close>) fails.
\<close>

theorem storage_failure_handling_witness:
  "fault_during (sample_device\<lparr>fault_at := \<lambda>n. n = 2\<rparr>)
      (snd (loadFoods ascii_builtins (sample_device\<lparr>fault_at := \<lambda>n. n = 2\<rparr>)))
   \<and> fst (loadFoods ascii_builtins (sample_device\<lparr>fault_at := \<lambda>n. n = 2\<rparr>)) = Inr []
   \<and> fault_during (sample_device\<lparr>fault_at := \<lambda>n. n = 1\<rparr>)
      (snd (saveFoods ascii_builtins [banana] (sample_device\<lparr>fault_at := \<lambda>n. n = 1\<rparr>)))
   \<and> fst (saveFoods ascii_builtins [banana] (sample_device\<lparr>fault_at := \<lambda>n. n = 1\<rparr>)) = Inl IOError
   \<and> files (snd (saveFoods ascii_builtins [banana] (sample_device\<lparr>fault_at := \<lambda>n. n = 1\<rparr>)))
       = files sample_device"
proof -
  have h1: "fault_during (sample_device\<lparr>fault_at := \<lambda>n. n = 2\<rparr>)
      (snd (loadFoods ascii_builtins (sample_device\<lparr>fault_at := \<lambda>n. n = 2\<rparr>)))"
    by (simp add: fault_during_def run_defs device_defs)
  have h2: "fault_during (sample_device\<lparr>fault_at := \<lambda>n. n = 1\<rparr>)
      (snd (saveFoods ascii_builtins [banana] (sample_device\<lparr>fault_at := \<lambda>n. n = 1\<rparr>)))"
    by (simp add: fault_during_def run_defs device_defs)
  from storage_failure_handling
    [of ascii_builtins "sample_device\<lparr>fault_at := \<lambda>n. n = 2\<rparr>" IOError "[]" "[banana]"]
    storage_failure_handling
    [of ascii_builtins "sample_device\<lparr>fault_at := \<lambda>n. n = 1\<rparr>" IOError "[]" "[banana]"]
    h1 h2
  show ?thesis by simp
qed

section \<open>Loading\<close>

text \<open>
  C5, as amended: when there is no document (nothing at its path, which is the case when
  its directory does not exist) and no call fails, the \<^verbatim>\<open>loadFoods\<close> of the form creates the
  empty document at the fixed path and returns the empty array; the \<^verbatim>\<open>loadFoods\<close> of the
  list screen returns the empty array too, and creates neither the document nor the
  directory.
\<close>

theorem loadFoods_creates_missing_document:
  assumes "fault_free w"
    and "files w (FOODS_FILE_PATH w) = None"
    and "FOODS_FILE_PATH w \<notin> dirs w"
  shows "fst (loadFoods B w) = Inr []
     \<and> files (snd (loadFoods B w)) = (files w)(FOODS_FILE_PATH w \<mapsto> JSON_stringify B [])
     \<and> fst (loadFoods_list B w) = Inr []
     \<and> files (snd (loadFoods_list B w)) = files w
     \<and> dirs (snd (loadFoods_list B w)) = dirs w"
proof -
  have st: "stored B w []"
    using assms(2,3) by (simp add: stored_def)
  show ?thesis
    using loadFoods_fault_free(1,4) [OF assms(1) st]
      loadFoods_list_fault_free(1,3,4) [OF assms(1) st] assms(2)
    by simp
qed

theorem loadFoods_creates_missing_document_witness:
  "fault_free fresh_device
   \<and> files fresh_device (FOODS_FILE_PATH fresh_device) = None
   \<and> FOODS_FILE_PATH fresh_device \<notin> dirs fresh_device
   \<and> fst (loadFoods ascii_builtins fresh_device) = Inr []
   \<and> files (snd (loadFoods ascii_builtins fresh_device)) (FOODS_FILE_PATH fresh_device) = Some ''[]''
   \<and> fst (loadFoods_list ascii_builtins fresh_device) = Inr []
   \<and> files (snd (loadFoods_list ascii_builtins fresh_device)) = files fresh_device"
proof -
  have h1: "fault_free fresh_device"
    by (simp add: fault_free_def fresh_device_def)
  have h2: "files fresh_device (FOODS_FILE_PATH fresh_device) = None"
    by (simp add: fresh_device_def)
  have h3: "FOODS_FILE_PATH fresh_device \<notin> dirs fresh_device"
    by (simp add: fresh_device_def)
  have e: "json_text [] = ''[]''"
    by (simp add: json_text_def)
  from loadFoods_creates_missing_document [OF h1 h2 h3, of ascii_builtins] h1 h2 h3 e
  show ?thesis by simp
qed

text \<open>
  The claim as stated fails for the list screen: on a device just installed its
  \<^verbatim>\<open>loadFoods\<close> returns the empty array and there is still no document.
\<close>

theorem loadFoods_list_creates_nothing_counterexample:
  "files fresh_device (FOODS_FILE_PATH fresh_device) = None
   \<and> DATA_DIRECTORY fresh_device \<notin> dirs fresh_device
   \<and> fst (loadFoods_list ascii_builtins fresh_device) = Inr []
   \<and> files (snd (loadFoods_list ascii_builtins fresh_device)) (FOODS_FILE_PATH fresh_device) = None
   \<and> dirs (snd (loadFoods_list ascii_builtins fresh_device)) = {}"
  by (simp add: run_defs device_defs)




section \<open>Validation\<close>

text \<open>
  C6: a form whose name is empty after trimming, or whose weight is empty or is not a
  number, is rejected with an alert and the world is left as it was: no call of the file
  system API is made, so nothing is written and the document is unchanged.
\<close>

theorem handleSubmit_rejects_invalid:
  assumes "trim B (foodName_st st) = [] \<or> weight_st st = [] \<or> isNaN_Number B (weight_st st)"
  shows "snd (handleSubmit B initialData st w) = w
       \<and> fst (handleSubmit B initialData st w) \<in> {NameRequired, InvalidWeight}"
  using assms by (auto simp: handleSubmit_def validateForm_def)

text \<open>The form with a name of two spaces, on the sample device.\<close>

theorem handleSubmit_rejects_invalid_witness:
  "trim ascii_builtins (foodName_st (pear_form\<lparr>foodName_st := ''  ''\<rparr>)) = []
   \<and> snd (handleSubmit ascii_builtins None (pear_form\<lparr>foodName_st := ''  ''\<rparr>) sample_device)
       = sample_device
   \<and> fst (handleSubmit ascii_builtins None (pear_form\<lparr>foodName_st := ''  ''\<rparr>) sample_device)
       \<in> {NameRequired, InvalidWeight}"
proof -
  have h: "trim ascii_builtins (foodName_st (pear_form\<lparr>foodName_st := ''  ''\<rparr>)) = []"
    by (simp add: trim_def sample_defs)
  then have "trim ascii_builtins (foodName_st (pear_form\<lparr>foodName_st := ''  ''\<rparr>)) = []
    \<or> weight_st (pear_form\<lparr>foodName_st := ''  ''\<rparr>) = []
    \<or> isNaN_Number ascii_builtins (weight_st (pear_form\<lparr>foodName_st := ''  ''\<rparr>))"
    by (rule disjI1)
  from handleSubmit_rejects_invalid [OF this] h show ?thesis by blast
qed

text \<open>
  The examples of the specification: an empty name, and the weight \<^verbatim>\<open>abc\<close>, are rejected;
  the weight \<^verbatim>\<open>100\<close> with a name is accepted by the validation.
\<close>

lemma validateForm_examples:
  "validateForm ascii_builtins (pear_form\<lparr>foodName_st := []\<rparr>) = Some NameRequired"
  "validateForm ascii_builtins (pear_form\<lparr>weight_st := ''abc''\<rparr>) = Some InvalidWeight"
  "validateForm ascii_builtins (pear_form\<lparr>weight_st := []\<rparr>) = Some InvalidWeight"
  "validateForm ascii_builtins pear_form = None"
  by (simp_all add: validateForm_def trim_def sample_defs)

section \<open>Search\<close>





text \<open>The example of the specification, with the lower case of ASCII.\<close>

lemma filteredFoods_example:
  "filteredFoods ascii_lower [apple_pie, banana] ''pp'' = [apple_pie]"
  "filteredFoods ascii_lower [apple_pie, banana] ''PP'' = [apple_pie]"
  "filteredFoods ascii_lower [apple_pie, banana] [] = [apple_pie, banana]"
  by (simp_all add: filteredFoods_def toLowerCase_def ascii_lower_def apple_pie_def banana_def)

section \<open>Creating, editing and deleting\<close>

text \<open>
  C1, as amended: a valid form submitted without an id, when no call fails, appends one
  record to the collection that the store holds: the saved collection is the old one with
  the new record at the end, its size is the old size plus one, and the id of the new
  record is the decimal text of the reading of the clock. The id is new to the collection
  whenever no record of the collection carries that text as its id already.
\<close>

theorem handleSubmit_create_appends:
  assumes "validateForm B st = None"
    and "initial_id initialData = None"
    and "fault_free w"
    and "stored B w foods"
    and "imageUri_st st = [] \<or> files w (imageUri_st st) \<noteq> None"
  shows "\<exists>food. fst (handleSubmit B initialData st w) = SavedOk
     \<and> files (snd (handleSubmit B initialData st w)) (FOODS_FILE_PATH w)
         = Some (JSON_stringify_2 B (foods @ [food]))
     \<and> length (foods @ [food]) = length foods + 1
     \<and> food_id food = Some (toString (clock w (now_calls w)))
     \<and> foodName food = trim B (foodName_st st)
     \<and> (Some (toString (clock w (now_calls w))) \<notin> set (map food_id foods)
          \<longrightarrow> food_id food \<notin> set (map food_id foods))"
proof -
  from handleSubmit_fault_free [OF assms(1,3,4,5), of initialData]
  obtain u where ok: "fst (handleSubmit B initialData st w) = SavedOk"
    and f: "files (snd (handleSubmit B initialData st w)) (FOODS_FILE_PATH w) =
               Some (JSON_stringify_2 B
                 (upsert initialData ((newFood B (minted_id initialData w) st)\<lparr>imageUri := Some u\<rparr>) foods))"
    by blast
  let ?food = "(newFood B (minted_id initialData w) st)\<lparr>imageUri := Some u\<rparr>"
  have up: "upsert initialData ?food foods = foods @ [?food]"
    using assms(2) by (simp add: upsert_def)
  have i: "food_id ?food = Some (toString (clock w (now_calls w)))"
    using assms(2) by (simp add: newFood_def minted_id_def)
  have n: "foodName ?food = trim B (foodName_st st)"
    by (simp add: newFood_def)
  show ?thesis
    using ok f up i n by (intro exI [of _ ?food]) simp
qed

theorem handleSubmit_create_appends_witness:
  "validateForm ascii_builtins pear_form = None
   \<and> initial_id None = None
   \<and> fault_free sample_device
   \<and> stored ascii_builtins sample_device [apple_pie, banana]
   \<and> (\<exists>food. fst (handleSubmit ascii_builtins None pear_form sample_device) = SavedOk
        \<and> files (snd (handleSubmit ascii_builtins None pear_form sample_device))
             (FOODS_FILE_PATH sample_device)
            = Some (json_text_2 ([apple_pie, banana] @ [food]))
        \<and> food_id food = Some ''1700000000002''
        \<and> food_id food \<notin> set (map food_id [apple_pie, banana]))"
proof -
  have h1: "validateForm ascii_builtins pear_form = None" by simp
  have h2: "initial_id None = None" by (simp add: initial_id_def)
  have h3: "fault_free sample_device"
    by (simp add: fault_free_def sample_device_def)
  have h4: "stored ascii_builtins sample_device [apple_pie, banana]"
    by (simp add: stored_def device_defs)
  have h5: "imageUri_st pear_form = [] \<or> files sample_device (imageUri_st pear_form) \<noteq> None"
    by simp
  have t: "toString (clock sample_device (now_calls sample_device)) = ''1700000000002''"
    by (simp add: sample_device_def toString_samples)
  have fresh: "Some ''1700000000002'' \<notin> set (map food_id [apple_pie, banana])"
    by (simp add: apple_pie_def banana_def)
  from handleSubmit_create_appends [OF h1 h2 h3 h4 h5] t fresh h1 h2 h3 h4
  show ?thesis by auto
qed

text \<open>
  On a device just installed, the first record is saved together with the directory and
  the document.
\<close>

lemma create_on_fresh_device:
  "fst (handleSubmit ascii_builtins None pear_form fresh_device) = SavedOk"
  "files (snd (handleSubmit ascii_builtins None pear_form fresh_device)) ''file:///data/foods/foods.json''
     = Some (json_text_2 [newFood ascii_builtins ''1700000000002'' pear_form])"
  "dirs (snd (handleSubmit ascii_builtins None pear_form fresh_device)) = {''file:///data/foods/''}"
  by (simp_all add: run_defs device_defs toString_samples)

text \<open>
  The claim as stated fails: the id is the reading of the clock and nothing compares it
  with the ids of the collection. When the clock reads the id of a record of the
  collection, the record that is appended has the same id.
\<close>

theorem create_id_collision_counterexample:
  "stored ascii_builtins (sample_device\<lparr>clock := \<lambda>n. 1700000000000\<rparr>) [apple_pie, banana]
   \<and> fst (handleSubmit ascii_builtins None pear_form (sample_device\<lparr>clock := \<lambda>n. 1700000000000\<rparr>))
       = SavedOk
   \<and> files (snd (handleSubmit ascii_builtins None pear_form
         (sample_device\<lparr>clock := \<lambda>n. 1700000000000\<rparr>))) ''file:///data/foods/foods.json''
       = Some (json_text_2 [apple_pie, banana, newFood ascii_builtins ''1700000000000'' pear_form])
   \<and> food_id (newFood ascii_builtins ''1700000000000'' pear_form) = food_id apple_pie"
proof -
  have "food_id (newFood ascii_builtins ''1700000000000'' pear_form) = food_id apple_pie"
    by (simp add: newFood_def apple_pie_def)
  then show ?thesis
    by (simp add: stored_def run_defs device_defs toString_samples)
qed

text \<open>
  C2, as amended: a valid form submitted with an id that occurs in the collection, when no
  call fails,
  saves a collection of the same size in which exactly one record is replaced: the first
  record that has the id. The record that replaces it has the id and the fields of the
  form; every other record is unchanged.
\<close>

theorem handleSubmit_edit_replaces:
  assumes "validateForm B st = None"
    and "initial_id initialData = Some i"
    and "fault_free w"
    and "stored B w foods"
    and "imageUri_st st = [] \<or> files w (imageUri_st st) \<noteq> None"
    and "Some i \<in> set (map food_id foods)"
  shows "\<exists>k food. fst (handleSubmit B initialData st w) = SavedOk
     \<and> files (snd (handleSubmit B initialData st w)) (FOODS_FILE_PATH w)
         = Some (JSON_stringify_2 B (foods[k := food]))
     \<and> k < length foods \<and> food_id (foods ! k) = Some i
     \<and> (\<forall>j<k. food_id (foods ! j) \<noteq> Some i)
     \<and> length (foods[k := food]) = length foods
     \<and> foods[k := food] ! k = food
     \<and> (\<forall>j<length foods. j \<noteq> k \<longrightarrow> foods[k := food] ! j = foods ! j)
     \<and> food_id food = Some i
     \<and> foodName food = trim B (foodName_st st)
     \<and> category food = category_st st
     \<and> calories food = or_else (calories_st st) ''0''
     \<and> weight food = or_else (weight_st st) ''0''
     \<and> protein food = or_else (protein_st st) ''0''
     \<and> carbs food = or_else (carbs_st st) ''0''
     \<and> fat food = or_else (fat_st st) ''0''
     \<and> fiber food = or_else (fiber_st st) ''0''
     \<and> (imageUri_st st = [] \<longrightarrow> imageUri food = Some [])"
proof -
  from handleSubmit_fault_free [OF assms(1,3,4,5), of initialData]
  obtain u where u: "imageUri_st st = [] \<longrightarrow> u = []"
    and ok: "fst (handleSubmit B initialData st w) = SavedOk"
    and f: "files (snd (handleSubmit B initialData st w)) (FOODS_FILE_PATH w) =
               Some (JSON_stringify_2 B
                 (upsert initialData ((newFood B (minted_id initialData w) st)\<lparr>imageUri := Some u\<rparr>) foods))"
    by blast
  let ?food = "(newFood B (minted_id initialData w) st)\<lparr>imageUri := Some u\<rparr>"
  have "findIndex (\<lambda>f. food_id f = Some i) foods \<noteq> None"
    using assms(6) by (auto simp: findIndex_None)
  then obtain k where k: "findIndex (\<lambda>f. food_id f = Some i) foods = Some k"
    by auto
  from findIndex_Some [OF k]
  have k1: "k < length foods" and k2: "food_id (foods ! k) = Some i"
    and k3: "\<forall>j<k. food_id (foods ! j) \<noteq> Some i"
    by auto
  have up: "upsert initialData ?food foods = foods[k := ?food]"
    using assms(2) k by (simp add: upsert_def)
  have fields: "food_id ?food = Some i" "foodName ?food = trim B (foodName_st st)"
    "category ?food = category_st st" "calories ?food = or_else (calories_st st) ''0''"
    "weight ?food = or_else (weight_st st) ''0''" "protein ?food = or_else (protein_st st) ''0''"
    "carbs ?food = or_else (carbs_st st) ''0''" "fat ?food = or_else (fat_st st) ''0''"
    "fiber ?food = or_else (fiber_st st) ''0''"
    "imageUri_st st = [] \<longrightarrow> imageUri ?food = Some []"
    using assms(2) u by (simp_all add: newFood_def minted_id_def)
  have frame: "\<forall>j<length foods. j \<noteq> k \<longrightarrow> foods[k := ?food] ! j = foods ! j"
    by simp
  have at: "foods[k := ?food] ! k = ?food"
    using k1 by simp
  show ?thesis
    apply (rule exI [of _ k], rule exI [of _ ?food])
    using ok f up k1 k2 k3 fields frame at by simp
qed

theorem handleSubmit_edit_replaces_witness:
  "validateForm ascii_builtins pear_form = None
   \<and> initial_id (Some apple_pie) = Some ''1700000000000''
   \<and> fault_free sample_device
   \<and> stored ascii_builtins sample_device [apple_pie, banana]
   \<and> Some ''1700000000000'' \<in> set (map food_id [apple_pie, banana])
   \<and> fst (handleSubmit ascii_builtins (Some apple_pie) pear_form sample_device) = SavedOk
   \<and> (\<exists>food. files (snd (handleSubmit ascii_builtins (Some apple_pie) pear_form sample_device))
             (FOODS_FILE_PATH sample_device)
            = Some (json_text_2 [food, banana])
        \<and> food_id food = Some ''1700000000000'' \<and> foodName food = ''Pear''
        \<and> weight food = ''100'' \<and> protein food = ''0'')"
proof -
  have h1: "validateForm ascii_builtins pear_form = None" by simp
  have h2: "initial_id (Some apple_pie) = Some ''1700000000000''"
    by (rule initial_id_apple_pie)
  have h3: "fault_free sample_device"
    by (simp add: fault_free_def sample_device_def)
  have h4: "stored ascii_builtins sample_device [apple_pie, banana]"
    by (simp add: stored_def device_defs)
  have h5: "imageUri_st pear_form = [] \<or> files sample_device (imageUri_st pear_form) \<noteq> None"
    by simp
  have h6: "Some ''1700000000000'' \<in> set (map food_id [apple_pie, banana])"
    by simp
  from handleSubmit_edit_replaces [OF h1 h2 h3 h4 h5 h6]
  obtain k food where ok: "fst (handleSubmit ascii_builtins (Some apple_pie) pear_form sample_device) = SavedOk"
    and f: "files (snd (handleSubmit ascii_builtins (Some apple_pie) pear_form sample_device))
             (FOODS_FILE_PATH sample_device)
            = Some (JSON_stringify_2 ascii_builtins ([apple_pie, banana][k := food]))"
    and k: "k < length [apple_pie, banana]" "food_id ([apple_pie, banana] ! k) = Some ''1700000000000''"
    and fields: "food_id food = Some ''1700000000000''"
      "foodName food = trim ascii_builtins (foodName_st pear_form)"
      "weight food = or_else (weight_st pear_form) ''0''"
      "protein food = or_else (protein_st pear_form) ''0''"
    by blast
  have "k = 0"
    using k by (cases k) auto
  then have l: "[apple_pie, banana][k := food] = [food, banana]"
    by simp
  have v: "trim ascii_builtins (foodName_st pear_form) = ''Pear''"
    "or_else (weight_st pear_form) ''0'' = ''100''"
    "or_else (protein_st pear_form) ''0'' = ''0''"
    by (simp_all add: trim_def or_else_def pear_form_def ascii_builtins_def ascii_whitespace_def)
  show ?thesis
    using h1 h2 h3 h4 h6 ok f l fields v by auto
qed

text \<open>
  The claim as stated fails when the read of the document fails: \<^verbatim>\<open>loadFoods\<close> gives the
  empty array, nothing has the id, and the edit saves the empty collection with the alert
  of success.
\<close>

theorem edit_after_failed_read_counterexample:
  "stored ascii_builtins (sample_device\<lparr>fault_at := \<lambda>n. n = 2\<rparr>) [apple_pie, banana]
   \<and> validateForm ascii_builtins pear_form = None
   \<and> initial_id (Some apple_pie) = food_id apple_pie
   \<and> fst (handleSubmit ascii_builtins (Some apple_pie) pear_form
        (sample_device\<lparr>fault_at := \<lambda>n. n = 2\<rparr>)) = SavedOk
   \<and> files (snd (handleSubmit ascii_builtins (Some apple_pie) pear_form
        (sample_device\<lparr>fault_at := \<lambda>n. n = 2\<rparr>))) ''file:///data/foods/foods.json''
       = Some (json_text_2 [])
   \<and> length ([] :: FoodData list) \<noteq> length [apple_pie, banana]"
  by (simp add: stored_def run_defs device_defs initial_id_apple_pie)

text \<open>
  C10, as amended: a valid form submitted with an id that no record of the collection has,
  when no call fails, saves the collection as it was loaded and shows the alert of success: the
  record of the form is neither put in the place of another record nor appended.
\<close>

theorem handleSubmit_edit_unknown_id:
  assumes "validateForm B st = None"
    and "initial_id initialData = Some i"
    and "fault_free w"
    and "stored B w foods"
    and "imageUri_st st = [] \<or> files w (imageUri_st st) \<noteq> None"
    and "Some i \<notin> set (map food_id foods)"
  shows "fst (handleSubmit B initialData st w) = SavedOk
     \<and> files (snd (handleSubmit B initialData st w)) (FOODS_FILE_PATH w)
         = Some (JSON_stringify_2 B foods)"
proof -
  from handleSubmit_fault_free [OF assms(1,3,4,5), of initialData]
  obtain u where ok: "fst (handleSubmit B initialData st w) = SavedOk"
    and f: "files (snd (handleSubmit B initialData st w)) (FOODS_FILE_PATH w) =
               Some (JSON_stringify_2 B
                 (upsert initialData ((newFood B (minted_id initialData w) st)\<lparr>imageUri := Some u\<rparr>) foods))"
    by blast
  have "findIndex (\<lambda>f. food_id f = Some i) foods = None"
    using assms(6) by (force simp: findIndex_None)
  then have "upsert initialData ((newFood B (minted_id initialData w) st)\<lparr>imageUri := Some u\<rparr>) foods = foods"
    using assms(2) by (simp add: upsert_def)
  with ok f show ?thesis by simp
qed

theorem handleSubmit_edit_unknown_id_witness:
  "validateForm ascii_builtins pear_form = None
   \<and> initial_id (Some (apple_pie\<lparr>food_id := Some ''42''\<rparr>)) = Some ''42''
   \<and> fault_free sample_device
   \<and> stored ascii_builtins sample_device [apple_pie, banana]
   \<and> Some ''42'' \<notin> set (map food_id [apple_pie, banana])
   \<and> fst (handleSubmit ascii_builtins (Some (apple_pie\<lparr>food_id := Some ''42''\<rparr>)) pear_form
        sample_device) = SavedOk
   \<and> files (snd (handleSubmit ascii_builtins (Some (apple_pie\<lparr>food_id := Some ''42''\<rparr>)) pear_form
        sample_device)) (FOODS_FILE_PATH sample_device)
       = Some (json_text_2 [apple_pie, banana])"
proof -
  have h1: "validateForm ascii_builtins pear_form = None" by simp
  have h2: "initial_id (Some (apple_pie\<lparr>food_id := Some ''42''\<rparr>)) = Some ''42''"
    by (rule initial_id_other)
  have h3: "fault_free sample_device"
    by (simp add: fault_free_def sample_device_def)
  have h4: "stored ascii_builtins sample_device [apple_pie, banana]"
    by (simp add: stored_def device_defs)
  have h5: "imageUri_st pear_form = [] \<or> files sample_device (imageUri_st pear_form) \<noteq> None"
    by simp
  have h6: "Some ''42'' \<notin> set (map food_id [apple_pie, banana])"
    by simp
  from handleSubmit_edit_unknown_id [OF h1 h2 h3 h4 h5 h6] h1 h2 h3 h4 h6
  show ?thesis by simp
qed

text \<open>
  The claim as stated fails when a call fails. When the read of the document fails, the
  edit saves the empty collection in the place of the two records; when the write fails,
  the document is as it was and the alert of failure is shown.
\<close>

theorem edit_unknown_id_failed_call_counterexample:
  "stored ascii_builtins (sample_device\<lparr>fault_at := \<lambda>n. n = 2\<rparr>) [apple_pie, banana]
   \<and> Some ''42'' \<notin> set (map food_id [apple_pie, banana])
   \<and> fst (handleSubmit ascii_builtins (Some (apple_pie\<lparr>food_id := Some ''42''\<rparr>)) pear_form
        (sample_device\<lparr>fault_at := \<lambda>n. n = 2\<rparr>)) = SavedOk
   \<and> files (snd (handleSubmit ascii_builtins (Some (apple_pie\<lparr>food_id := Some ''42''\<rparr>)) pear_form
        (sample_device\<lparr>fault_at := \<lambda>n. n = 2\<rparr>))) ''file:///data/foods/foods.json''
       = Some (json_text_2 [])
   \<and> fst (handleSubmit ascii_builtins (Some (apple_pie\<lparr>food_id := Some ''42''\<rparr>)) pear_form
        (sample_device\<lparr>fault_at := \<lambda>n. n = 4\<rparr>)) = SaveFailed
   \<and> files (snd (handleSubmit ascii_builtins (Some (apple_pie\<lparr>food_id := Some ''42''\<rparr>)) pear_form
        (sample_device\<lparr>fault_at := \<lambda>n. n = 4\<rparr>))) ''file:///data/foods/foods.json''
       = Some (json_text_2 [apple_pie, banana])"
  by (simp add: stored_def run_defs device_defs)

text \<open>
  C3, as amended: deleting by an id, when no call fails, saves the collection without the
  records that have the id, in both delete operations (\<^verbatim>\<open>handleDelete\<close> of the form, once
  confirmed, and \<^verbatim>\<open>deleteFood\<close> of the list screen). No remaining record has the id, and the
  size decreases by the number of records that had the id: by exactly one when exactly
  one record had it.
\<close>

theorem delete_removes_matching_records:
  assumes "fault_free w" and "stored B w foods" and "initial_id initialData = Some i"
  shows "fst (handleDelete B initialData True w) = Some DeletedOk
     \<and> files (snd (handleDelete B initialData True w)) (FOODS_FILE_PATH w)
         = Some (JSON_stringify_2 B (filter (\<lambda>food. food_id food \<noteq> Some i) foods))
     \<and> fst (deleteFood B i shown w) = None
     \<and> fst (snd (deleteFood B i shown w)) = filter (\<lambda>food. food_id food \<noteq> Some i) foods
     \<and> files (snd (snd (deleteFood B i shown w))) (FOODS_FILE_PATH w)
         = Some (JSON_stringify B (filter (\<lambda>food. food_id food \<noteq> Some i) foods))
     \<and> Some i \<notin> set (map food_id (filter (\<lambda>food. food_id food \<noteq> Some i) foods))
     \<and> length (filter (\<lambda>food. food_id food \<noteq> Some i) foods)
         = length foods - length (filter (\<lambda>food. food_id food = Some i) foods)
     \<and> (length (filter (\<lambda>food. food_id food = Some i) foods) = 1
          \<longrightarrow> length (filter (\<lambda>food. food_id food \<noteq> Some i) foods) + 1 = length foods)"
proof -
  have len: "length (filter (\<lambda>food. food_id food = Some i) foods)
      + length (filter (\<lambda>food. food_id food \<noteq> Some i) foods) = length foods"
    by (rule sum_length_filter_compl)
  have none: "Some i \<notin> set (map food_id (filter (\<lambda>food. food_id food \<noteq> Some i) foods))"
    by auto
  show ?thesis
    using handleDelete_fault_free [OF assms] deleteFood_fault_free [OF assms(1,2), of i shown]
      len none
    by simp
qed

theorem delete_removes_matching_records_witness:
  "fault_free sample_device
   \<and> stored ascii_builtins sample_device [apple_pie, banana]
   \<and> initial_id (Some apple_pie) = Some ''1700000000000''
   \<and> fst (handleDelete ascii_builtins (Some apple_pie) True sample_device) = Some DeletedOk
   \<and> files (snd (handleDelete ascii_builtins (Some apple_pie) True sample_device))
        (FOODS_FILE_PATH sample_device) = Some (json_text_2 [banana])
   \<and> fst (snd (deleteFood ascii_builtins ''1700000000000'' [apple_pie, banana] sample_device))
       = [banana]
   \<and> files (snd (snd (deleteFood ascii_builtins ''1700000000000'' [apple_pie, banana] sample_device)))
        (FOODS_FILE_PATH sample_device) = Some (json_text [banana])"
proof -
  have h1: "fault_free sample_device"
    by (simp add: fault_free_def sample_device_def)
  have h2: "stored ascii_builtins sample_device [apple_pie, banana]"
    by (simp add: stored_def device_defs)
  have h3: "initial_id (Some apple_pie) = Some ''1700000000000''"
    by (rule initial_id_apple_pie)
  from delete_removes_matching_records [OF h1 h2 h3, of "[apple_pie, banana]"] h1 h2 h3
  show ?thesis by simp
qed

text \<open>
  The claim as stated fails for an id that no record has: the delete succeeds and the
  collection keeps its size.
\<close>

theorem delete_unknown_id_counterexample:
  "stored ascii_builtins sample_device [apple_pie, banana]
   \<and> Some ''42'' \<notin> set (map food_id [apple_pie, banana])
   \<and> fst (handleDelete ascii_builtins (Some (apple_pie\<lparr>food_id := Some ''42''\<rparr>)) True sample_device)
       = Some DeletedOk
   \<and> files (snd (handleDelete ascii_builtins (Some (apple_pie\<lparr>food_id := Some ''42''\<rparr>)) True
         sample_device)) ''file:///data/foods/foods.json''
       = Some (json_text_2 [apple_pie, banana])
   \<and> length [apple_pie, banana] \<noteq> length [apple_pie, banana] - 1"
  by (simp add: stored_def run_defs device_defs)

section \<open>Unique ids\<close>

lemma upsert_edit_ids:
  assumes "initial_id initialData = Some i" and "food_id food = Some i"
  shows "map food_id (upsert initialData food foods) = map food_id foods"
proof (cases "findIndex (\<lambda>f. food_id f = Some i) foods")
  case None
  then show ?thesis using assms(1) by (simp add: upsert_def)
next
  case (Some k)
  from findIndex_Some [OF Some] have "k < length foods" and "food_id (foods ! k) = Some i"
    by auto
  then have "(map food_id foods)[k := Some i] = map food_id foods"
    by (metis list_update_id nth_map)
  then show ?thesis
    using assms Some by (simp add: upsert_def map_update)
qed

text \<open>
  C9, as amended: when no call fails and the ids of the stored collection are distinct,
  an edit saves a collection with the same ids at the same positions (so the id of the
  edited record is the id supplied, and the ids stay distinct), a delete saves a
  collection with distinct ids, and a creation saves a collection with distinct ids
  whenever the decimal text of the reading of the clock is not the id of a record
  already.
\<close>

theorem ids_stay_unique:
  assumes "fault_free w" and "stored B w foods" and "distinct (map food_id foods)"
  shows "(validateForm B st = None \<and> (imageUri_st st = [] \<or> files w (imageUri_st st) \<noteq> None)
          \<and> initial_id initialData = Some i
          \<longrightarrow> (\<exists>foods'. files (snd (handleSubmit B initialData st w)) (FOODS_FILE_PATH w)
                    = Some (JSON_stringify_2 B foods')
                 \<and> map food_id foods' = map food_id foods \<and> distinct (map food_id foods')))
     \<and> (validateForm B st = None \<and> (imageUri_st st = [] \<or> files w (imageUri_st st) \<noteq> None)
          \<and> initial_id initialData = None
          \<and> Some (toString (clock w (now_calls w))) \<notin> set (map food_id foods)
          \<longrightarrow> (\<exists>foods'. files (snd (handleSubmit B initialData st w)) (FOODS_FILE_PATH w)
                    = Some (JSON_stringify_2 B foods')
                 \<and> distinct (map food_id foods')))
     \<and> (initial_id initialData = Some i
          \<longrightarrow> (\<exists>foods'. files (snd (handleDelete B initialData True w)) (FOODS_FILE_PATH w)
                    = Some (JSON_stringify_2 B foods')
                 \<and> distinct (map food_id foods')))
     \<and> distinct (map food_id (fst (snd (deleteFood B i shown w))))"
proof (intro conjI impI)
  assume a: "validateForm B st = None \<and> (imageUri_st st = [] \<or> files w (imageUri_st st) \<noteq> None)
          \<and> initial_id initialData = Some i"
  from a handleSubmit_fault_free [OF _ assms(1,2), of st initialData]
  obtain u where f: "files (snd (handleSubmit B initialData st w)) (FOODS_FILE_PATH w) =
               Some (JSON_stringify_2 B
                 (upsert initialData ((newFood B (minted_id initialData w) st)\<lparr>imageUri := Some u\<rparr>) foods))"
    by blast
  let ?food = "(newFood B (minted_id initialData w) st)\<lparr>imageUri := Some u\<rparr>"
  have "food_id ?food = Some i"
    using a by (simp add: newFood_def minted_id_def)
  then have "map food_id (upsert initialData ?food foods) = map food_id foods"
    using a by (intro upsert_edit_ids) auto
  with f assms(3)
  show "\<exists>foods'. files (snd (handleSubmit B initialData st w)) (FOODS_FILE_PATH w)
                    = Some (JSON_stringify_2 B foods')
                 \<and> map food_id foods' = map food_id foods \<and> distinct (map food_id foods')"
    by (intro exI [of _ "upsert initialData ?food foods"]) simp
next
  assume a: "validateForm B st = None \<and> (imageUri_st st = [] \<or> files w (imageUri_st st) \<noteq> None)
          \<and> initial_id initialData = None
          \<and> Some (toString (clock w (now_calls w))) \<notin> set (map food_id foods)"
  from a handleSubmit_fault_free [OF _ assms(1,2), of st initialData]
  obtain u where f: "files (snd (handleSubmit B initialData st w)) (FOODS_FILE_PATH w) =
               Some (JSON_stringify_2 B
                 (upsert initialData ((newFood B (minted_id initialData w) st)\<lparr>imageUri := Some u\<rparr>) foods))"
    by blast
  let ?food = "(newFood B (minted_id initialData w) st)\<lparr>imageUri := Some u\<rparr>"
  have "food_id ?food = Some (toString (clock w (now_calls w)))"
    using a by (simp add: newFood_def minted_id_def)
  then have "distinct (map food_id (upsert initialData ?food foods))"
    using a assms(3) by (simp add: upsert_def)
  with f
  show "\<exists>foods'. files (snd (handleSubmit B initialData st w)) (FOODS_FILE_PATH w)
                    = Some (JSON_stringify_2 B foods')
                 \<and> distinct (map food_id foods')"
    by blast
next
  assume a: "initial_id initialData = Some i"
  have "distinct (map food_id (filter (\<lambda>food. food_id food \<noteq> Some i) foods))"
    using assms(3) by (rule distinct_map_filter)
  with handleDelete_fault_free(2) [OF assms(1,2) a]
  show "\<exists>foods'. files (snd (handleDelete B initialData True w)) (FOODS_FILE_PATH w)
                    = Some (JSON_stringify_2 B foods')
                 \<and> distinct (map food_id foods')"
    by (intro exI [of _ "filter (\<lambda>food. food_id food \<noteq> Some i) foods"]) simp
next
  show "distinct (map food_id (fst (snd (deleteFood B i shown w))))"
    using deleteFood_fault_free(2) [OF assms(1,2), of i shown] assms(3)
    by (simp add: distinct_map_filter)
qed

theorem ids_stay_unique_witness:
  "fault_free sample_device
   \<and> stored ascii_builtins sample_device [apple_pie, banana]
   \<and> distinct (map food_id [apple_pie, banana])
   \<and> (\<exists>foods'. files (snd (handleSubmit ascii_builtins (Some apple_pie) pear_form sample_device))
                   (FOODS_FILE_PATH sample_device) = Some (json_text_2 foods')
               \<and> map food_id foods' = map food_id [apple_pie, banana])
   \<and> (\<exists>foods'. files (snd (handleSubmit ascii_builtins None pear_form sample_device))
                   (FOODS_FILE_PATH sample_device) = Some (json_text_2 foods')
               \<and> distinct (map food_id foods'))
   \<and> (\<exists>foods'. files (snd (handleDelete ascii_builtins (Some apple_pie) True sample_device))
                   (FOODS_FILE_PATH sample_device) = Some (json_text_2 foods')
               \<and> distinct (map food_id foods'))"
proof -
  have h1: "fault_free sample_device"
    by (simp add: fault_free_def sample_device_def)
  have h2: "stored ascii_builtins sample_device [apple_pie, banana]"
    by (simp add: stored_def device_defs)
  have h3: "distinct (map food_id [apple_pie, banana])"
    by simp
  have t: "Some (toString (clock sample_device (now_calls sample_device)))
      \<notin> set (map food_id [apple_pie, banana])"
    by (simp add: sample_device_def toString_samples)
  have n: "initial_id None = None"
    by (simp add: initial_id_def)
  from ids_stay_unique [OF h1 h2 h3, of pear_form "Some apple_pie" "''1700000000000''"]
    ids_stay_unique [OF h1 h2 h3, of pear_form None "''1700000000000''"]
    h1 h2 h3 t n initial_id_apple_pie
  show ?thesis by auto
qed

text \<open>
  The claim as stated fails for the creation: with distinct ids in the collection and a
  clock that reads the id of one of its records, the saved collection has that id twice.
\<close>

theorem create_breaks_unique_ids_counterexample:
  "distinct (map food_id [apple_pie, banana])
   \<and> stored ascii_builtins (sample_device\<lparr>clock := \<lambda>n. 1700000000001\<rparr>) [apple_pie, banana]
   \<and> fst (handleSubmit ascii_builtins None pear_form (sample_device\<lparr>clock := \<lambda>n. 1700000000001\<rparr>))
       = SavedOk
   \<and> files (snd (handleSubmit ascii_builtins None pear_form
         (sample_device\<lparr>clock := \<lambda>n. 1700000000001\<rparr>))) ''file:///data/foods/foods.json''
       = Some (json_text_2 [apple_pie, banana, newFood ascii_builtins ''1700000000001'' pear_form])
   \<and> \<not> distinct (map food_id [apple_pie, banana, newFood ascii_builtins ''1700000000001'' pear_form])"
proof -
  have "food_id (newFood ascii_builtins ''1700000000001'' pear_form) = Some ''1700000000001''"
    by (simp add: newFood_def)
  then have "\<not> distinct (map food_id [apple_pie, banana, newFood ascii_builtins ''1700000000001'' pear_form])"
    by simp
  moreover have "distinct (map food_id [apple_pie, banana])"
    by simp
  ultimately show ?thesis
    by (simp add: stored_def run_defs device_defs toString_samples)
qed

end
